theory Spec2Isabelle
  imports Main "HOL-Library.AList" "HOL-Library.Log_Nat" "HOL-Library.Sublist"
begin

section \<open>JavaScript strings\<close>

text \<open>
  A JavaScript string is a sequence of UTF-16 code units. A code unit is modelled by its
  numeric value (below 65536 for every string the program can hold); \<open>str\<close> embeds an
  ASCII literal of the source.
\<close>

type_synonym code_unit = nat
type_synonym jsstring = "code_unit list"

definition str :: "string \<Rightarrow> jsstring" where
  "str s = map of_char s"

text \<open>The character class \<^verbatim>\<open>\d\<close> of a regular expression without the unicode flag: 0-9.\<close>

definition isDigit :: "code_unit \<Rightarrow> bool" where
  "isDigit c \<longleftrightarrow> 48 \<le> c \<and> c \<le> 57"

text \<open>The class \<^verbatim>\<open>\w\<close>, which decides the word boundary \<^verbatim>\<open>\b\<close>: a-z, A-Z, 0-9 and the underscore.\<close>

definition isWordChar :: "code_unit \<Rightarrow> bool" where
  "isWordChar c \<longleftrightarrow>
     (97 \<le> c \<and> c \<le> 122) \<or> (65 \<le> c \<and> c \<le> 90) \<or> (48 \<le> c \<and> c \<le> 57) \<or> c = 95"

text \<open>
  WhiteSpace and LineTerminator of ECMAScript, the code units removed by
  \<^verbatim>\<open>String.prototype.trim\<close> and matched by \<^verbatim>\<open>\s\<close>: TAB, LF, VT, FF, CR, SP, NBSP,
  U+1680, U+2000..U+200A, U+2028, U+2029, U+202F, U+205F, U+3000 and U+FEFF.
\<close>

definition isWhiteSpace :: "code_unit \<Rightarrow> bool" where
  "isWhiteSpace c \<longleftrightarrow>
     (9 \<le> c \<and> c \<le> 13) \<or> c = 32 \<or> c = 160 \<or> c = 5760 \<or> (8192 \<le> c \<and> c \<le> 8202) \<or>
     c = 8232 \<or> c = 8233 \<or> c = 8239 \<or> c = 8287 \<or> c = 12288 \<or> c = 65279"

definition trim :: "jsstring \<Rightarrow> jsstring" where
  "trim s = rev (dropWhile isWhiteSpace (rev (dropWhile isWhiteSpace s)))"

text \<open>
  \<^verbatim>\<open>input.replace(re, '')\<close> for a regular expression with the global flag: the input is
  scanned from the left; where the expression matches, the matched code units are dropped
  and the scan goes on behind the match; elsewhere the code unit is kept. The matcher
  \<open>m\<close> gives the length of the match that starts at the head of its argument, if there
  is one. After an empty match the scan advances by one code unit.
\<close>

fun replace_all :: "(jsstring \<Rightarrow> nat option) \<Rightarrow> jsstring \<Rightarrow> jsstring" where
  "replace_all m [] = []"
| "replace_all m (c # cs) =
     (case m (c # cs) of
        None \<Rightarrow> c # replace_all m cs
      | Some 0 \<Rightarrow> c # replace_all m cs
      | Some (Suc k) \<Rightarrow> replace_all m (drop k cs))"

text \<open>
  Matching an ASCII pattern under the flag \<^verbatim>\<open>i\<close> (without \<^verbatim>\<open>u\<close>): a code unit matches a
  letter of the pattern when it is that letter in either case; no code unit outside ASCII
  canonicalises to an ASCII letter. The pattern is given in lower case.
\<close>

definition lower_ascii :: "code_unit \<Rightarrow> code_unit" where
  "lower_ascii c = (if 65 \<le> c \<and> c \<le> 90 then c + 32 else c)"

fun ci_prefix :: "jsstring \<Rightarrow> jsstring \<Rightarrow> bool" where
  "ci_prefix [] s \<longleftrightarrow> True"
| "ci_prefix (p # ps) [] \<longleftrightarrow> False"
| "ci_prefix (p # ps) (c # cs) \<longleftrightarrow> lower_ascii c = p \<and> ci_prefix ps cs"

section \<open>Field validators and sanitizers (types/resumeTypes)\<close>

subsection \<open>sanitizeString and sanitizeDescription\<close>

text \<open>
  \<^verbatim>\<open>/<[^>]+>/g\<close>: a \<open><\<close> (60), then every following code unit up to the next \<open>>\<close> (62),
  at least one, then that \<open>>\<close>. The class excludes \<open>>\<close>, so backtracking finds no other
  match.
\<close>

definition tag_match :: "jsstring \<Rightarrow> nat option" where
  "tag_match s =
     (case s of
        [] \<Rightarrow> None
      | c # cs \<Rightarrow>
          if c = 60 then
            (let body = takeWhile (\<lambda>x. x \<noteq> 62) cs in
             if body \<noteq> [] \<and> length body < length cs then Some (length body + 2) else None)
          else None)"

text \<open>
  \<^verbatim>\<open>/<script\b[^<]*(?:(?!<\/script>)<[^<]*)*<\/script>/gi\<close>: behind \<open><script\<close> and a word
  boundary, the expression runs over code units other than \<open><\<close> and over every \<open><\<close>
  that does not open \<open></script>\<close>, and ends with the first \<open></script>\<close> it reaches;
  \<open>find_close\<close> gives the length of that run, the closing tag included.
\<close>

fun find_close :: "jsstring \<Rightarrow> nat option" where
  "find_close [] = None"
| "find_close (c # cs) =
     (if ci_prefix (str ''</script>'') (c # cs) then Some 9
      else map_option Suc (find_close cs))"

definition script_match :: "jsstring \<Rightarrow> nat option" where
  "script_match s =
     (if ci_prefix (str ''<script'') s \<and>
         (case drop 7 s of [] \<Rightarrow> True | c # _ \<Rightarrow> \<not> isWordChar c)
      then map_option (\<lambda>n. 7 + n) (find_close (drop 7 s))
      else None)"

definition sanitizeString :: "jsstring \<Rightarrow> jsstring" where
  "sanitizeString input =
     (if input = [] then []
      else trim (replace_all tag_match (replace_all script_match input)))"

definition sanitizeDescription :: "jsstring \<Rightarrow> jsstring" where
  "sanitizeDescription input =
     (if input = [] then [] else trim (replace_all script_match input))"

text \<open>What the spec rules out of the strict sanitizer's output.\<close>

definition has_tag :: "jsstring \<Rightarrow> bool" where
  "has_tag s \<longleftrightarrow>
     (\<exists>pre body post. s = pre @ [60] @ body @ [62] @ post \<and> body \<noteq> [] \<and> 62 \<notin> set body)"

definition has_script_block :: "jsstring \<Rightarrow> bool" where
  "has_script_block s \<longleftrightarrow> (\<exists>pre suf. s = pre @ suf \<and> script_match suf \<noteq> None)"

subsection \<open>validateDate\<close>

text \<open>
  \<^verbatim>\<open>const dateRegex = /^\d{4}-(0[1-9]|1[0-2])$/; return dateRegex.test(date);\<close>
  The expression is anchored at both ends and has no quantifier of variable length, so it
  matches exactly the strings of seven code units of the pattern below.
\<close>

fun dateRegex_test :: "jsstring \<Rightarrow> bool" where
  "dateRegex_test [y1, y2, y3, y4, h, m1, m2] \<longleftrightarrow>
     isDigit y1 \<and> isDigit y2 \<and> isDigit y3 \<and> isDigit y4 \<and> h = 45 \<and>
     ((m1 = 48 \<and> 49 \<le> m2 \<and> m2 \<le> 57) \<or> (m1 = 49 \<and> 48 \<le> m2 \<and> m2 \<le> 50))"
| "dateRegex_test _ \<longleftrightarrow> False"

definition validateDate :: "jsstring \<Rightarrow> bool" where
  "validateDate date = (if date = str ''Present'' then True else dateRegex_test date)"

text \<open>The spec's date grammar: four decimal digits, a hyphen, and a two-digit month number.\<close>

definition two_digits :: "nat \<Rightarrow> jsstring" where
  "two_digits m = [48 + m div 10, 48 + m mod 10]"

definition year_month :: "jsstring \<Rightarrow> bool" where
  "year_month s \<longleftrightarrow>
     (\<exists>y1 y2 y3 y4 m. isDigit y1 \<and> isDigit y2 \<and> isDigit y3 \<and> isDigit y4 \<and> 1 \<le> m \<and> m \<le> 12 \<and>
        s = [y1, y2, y3, y4] @ str ''-'' @ two_digits m)"

section \<open>Numbers\<close>

text \<open>
  The Number values that \<open>parseFloat\<close> yields on unsigned decimal literals: the finite
  non-negative binary64 values, by their exact value, and \<open>Infinity\<close>. The operator
  \<^verbatim>\<open>>\<close> on them is \<open>number_gt\<close>.
\<close>

datatype number = Finite rat | Infinity

fun number_gt :: "number \<Rightarrow> number \<Rightarrow> bool" where
  "number_gt (Finite a) (Finite b) \<longleftrightarrow> b < a"
| "number_gt Infinity (Finite b) \<longleftrightarrow> True"
| "number_gt x Infinity \<longleftrightarrow> False"

definition round_half_even :: "rat \<Rightarrow> int" where
  "round_half_even x =
     (let f = \<lfloor>x\<rfloor>; d = x - of_int f in
      if d < 1 / 2 then f else if 1 / 2 < d then f + 1 else if even f then f else f + 1)"

text \<open>
  The Number value for a non-negative mathematical value \<open>v\<close> (IEEE 754 binary64,
  roundTiesToEven). Every finite binary64 value is a multiple of \<open>2^-1074\<close>; in that unit
  (\<open>w\<close>) a value of bit length \<open>b\<close> has a significand of 53 bits, so it is a multiple of
  \<open>2^(b - 53)\<close> when \<open>b > 53\<close> (normal) and of 1 otherwise (subnormal). A result that
  reaches \<open>2^1024\<close> is \<open>Infinity\<close>.
\<close>

definition number_value :: "rat \<Rightarrow> number" where
  "number_value v =
     (let w = v * 2 ^ 1074;
          s = floorlog 2 (nat \<lfloor>w\<rfloor>) - 53;
          n = round_half_even (w / 2 ^ s) * 2 ^ s
      in if 2 ^ 2098 \<le> n then Infinity else Finite (of_int n / 2 ^ 1074))"

definition digits_value :: "jsstring \<Rightarrow> nat" where
  "digits_value ds = foldl (\<lambda>a c. 10 * a + (c - 48)) 0 ds"

text \<open>
  \<open>parseFloat\<close> on a string that starts with a decimal digit and carries no exponent
  part (every string that the GPA expression captures is one): the literal is the
  leading digits and, behind a point (46), the digits that follow it; its mathematical
  value is rounded to a Number.
\<close>

definition decimal_value :: "jsstring \<Rightarrow> rat" where
  "decimal_value s =
     (let ip = takeWhile isDigit s;
          fp = (case dropWhile isDigit s of [] \<Rightarrow> [] | c # t \<Rightarrow> if c = 46 then takeWhile isDigit t else [])
      in of_nat (digits_value (ip @ fp)) / 10 ^ length fp)"

definition parseFloat :: "jsstring \<Rightarrow> number" where
  "parseFloat s = number_value (decimal_value s)"

subsection \<open>The GPA expression\<close>

text \<open>
  \<^verbatim>\<open>value.match(/^(\d+\.?\d*)\s*\/\s*(\d+\.?\d*)$/)\<close>. The code unit behind the first group
  is white space or the slash (47), so the group is the longest prefix of digits and
  points, which must have the shape \<^verbatim>\<open>\d+\.?\d*\<close>; the second group is what is left
  behind the slash and the white space around it. The result is the pair of the groups.
\<close>

definition decimal_shape :: "jsstring \<Rightarrow> bool" where
  "decimal_shape s \<longleftrightarrow>
     takeWhile isDigit s \<noteq> [] \<and>
     (case dropWhile isDigit s of [] \<Rightarrow> True | c # t \<Rightarrow> c = 46 \<and> dropWhile isDigit t = [])"

definition gpa_match :: "jsstring \<Rightarrow> (jsstring \<times> jsstring) option" where
  "gpa_match v =
     (let earned = takeWhile (\<lambda>c. isDigit c \<or> c = 46) v in
      case dropWhile isWhiteSpace (dropWhile (\<lambda>c. isDigit c \<or> c = 46) v) of
        [] \<Rightarrow> None
      | c # r \<Rightarrow>
          (let total' = dropWhile isWhiteSpace r in
           if c = 47 \<and> decimal_shape earned \<and> decimal_shape total' then Some (earned, total')
           else None))"

text \<open>The spec's form \<open><number>/<number>\<close>, read as the expression's grammar.\<close>

definition gpa_form :: "jsstring \<Rightarrow> jsstring \<Rightarrow> jsstring \<Rightarrow> bool" where
  "gpa_form v earned total' \<longleftrightarrow>
     decimal_shape earned \<and> decimal_shape total' \<and>
     (\<exists>ws1 ws2. v = earned @ ws1 @ [47] @ ws2 @ total' \<and>
        dropWhile isWhiteSpace ws1 = [] \<and> dropWhile isWhiteSpace ws2 = [])"

section \<open>Data model (types/resumeTypes)\<close>

text \<open>
  The records follow the JSDoc type definitions \<open>PersonalInfo\<close>, \<open>Education\<close>,
  \<open>Experience\<close> and \<open>ResumeData\<close>. The property \<open>id\<close> of an entry is \<open>edu_id\<close>,
  \<open>exp_id\<close> or \<open>repo_id\<close>; a property that two record types share carries the prefix
  \<open>exp_\<close> in \<open>Experience\<close>. \<open>null\<close> is \<open>None\<close>.
\<close>

record PersonalInfo =
  fullName :: jsstring
  email :: jsstring
  phone :: jsstring
  location :: jsstring
  linkedin :: jsstring
  github :: jsstring
  website :: jsstring
  profileImage :: jsstring
  showContactIcons :: bool

record Education =
  edu_id :: jsstring
  institution :: jsstring
  degree :: jsstring
  field :: jsstring
  startDate :: jsstring
  endDate :: jsstring
  gpa :: jsstring
  achievements :: "jsstring list"

text \<open>The enhanced repository object of \<open>processRepositoryData\<close>, as far as the code reads it.\<close>

record Repository =
  repo_id :: jsstring
  repo_name :: jsstring
  topics :: "jsstring list option"
  languages :: "jsstring list option"
  generatedTags :: "jsstring list option"

record Experience =
  exp_id :: jsstring
  exp_type :: jsstring
  title :: jsstring
  organization :: jsstring
  exp_location :: jsstring
  exp_startDate :: jsstring
  exp_endDate :: jsstring
  description :: jsstring
  technologies :: "jsstring list"
  repoId :: "jsstring option"
  repoData :: "Repository option"

record ResumeData =
  personalInfo :: PersonalInfo
  education :: "Education list"
  experiences :: "Experience list"
  selectedRepoIds :: "jsstring list"

text \<open>
  A JavaScript object used as a dictionary of messages: an association list in insertion
  order; \<^verbatim>\<open>errors[key] = msg\<close> is \<open>AList.update\<close>, \<^verbatim>\<open>delete errors[key]\<close> is
  \<open>AList.delete\<close>, \<^verbatim>\<open>Object.keys(errors)\<close> is \<open>map fst\<close>.
\<close>

type_synonym error_map = "(jsstring \<times> jsstring) list"

text \<open>
  \<^verbatim>\<open>`${Date.now()}`\<close>: the time value is an integral Number of magnitude below \<open>10^21\<close>,
  which \<open>Number::toString\<close> writes in decimal digits, with a leading minus sign (45)
  when negative.
\<close>

fun digits_of :: "nat \<Rightarrow> jsstring" where
  "digits_of n = (if n < 10 then [48 + n] else digits_of (n div 10) @ [48 + n mod 10])"

definition int_toString :: "int \<Rightarrow> jsstring" where
  "int_toString i = (if i < 0 then 45 # digits_of (nat (- i)) else digits_of (nat i))"

section \<open>Education section (form-sections/EducationForm)\<close>

text \<open>
  The component holds \<open>editingId\<close> and \<open>validationErrors\<close>; the list \<open>data\<close> belongs to
  its parent. Every operation returns the list it hands to \<open>onChange\<close> together with the
  component's own state. \<open>now\<close> is the reading of \<^verbatim>\<open>Date.now()\<close>.
\<close>

record EducationForm_state =
  editingId :: "jsstring option"
  validationErrors :: error_map

definition newEdu :: "int \<Rightarrow> Education" where
  "newEdu now =
     \<lparr>edu_id = str ''edu'' @ int_toString now, institution = [], degree = [], field = [],
      startDate = [], endDate = [], gpa = [], achievements = []\<rparr>"

definition addEducation ::
  "int \<Rightarrow> Education list \<Rightarrow> EducationForm_state \<Rightarrow> Education list \<times> EducationForm_state" where
  "addEducation now data st =
     (data @ [newEdu now], st\<lparr>editingId := Some (edu_id (newEdu now))\<rparr>)"

definition deleteEducation :: "jsstring \<Rightarrow> Education list \<Rightarrow> Education list" where
  "deleteEducation id' data = filter (\<lambda>edu. edu_id edu \<noteq> id') data"

text \<open>
  The property names that the component's inputs pass to \<open>updateEducation\<close>
  (\<^verbatim>\<open>{ ...edu, [field]: v }\<close>), and the text of each.
\<close>

datatype edu_field = Institution | Degree | Field | StartDate | EndDate | Gpa

fun edu_field_name :: "edu_field \<Rightarrow> jsstring" where
  "edu_field_name Institution = str ''institution''"
| "edu_field_name Degree = str ''degree''"
| "edu_field_name Field = str ''field''"
| "edu_field_name StartDate = str ''startDate''"
| "edu_field_name EndDate = str ''endDate''"
| "edu_field_name Gpa = str ''gpa''"

fun set_edu_field :: "edu_field \<Rightarrow> jsstring \<Rightarrow> Education \<Rightarrow> Education" where
  "set_edu_field Institution v edu = edu\<lparr>institution := v\<rparr>"
| "set_edu_field Degree v edu = edu\<lparr>degree := v\<rparr>"
| "set_edu_field Field v edu = edu\<lparr>field := v\<rparr>"
| "set_edu_field StartDate v edu = edu\<lparr>startDate := v\<rparr>"
| "set_edu_field EndDate v edu = edu\<lparr>endDate := v\<rparr>"
| "set_edu_field Gpa v edu = edu\<lparr>gpa := v\<rparr>"

fun get_edu_field :: "edu_field \<Rightarrow> Education \<Rightarrow> jsstring" where
  "get_edu_field Institution edu = institution edu"
| "get_edu_field Degree edu = degree edu"
| "get_edu_field Field edu = field edu"
| "get_edu_field StartDate edu = startDate edu"
| "get_edu_field EndDate edu = endDate edu"
| "get_edu_field Gpa edu = gpa edu"

text \<open>The key \<^verbatim>\<open>`${id}-${field}`\<close> of the error map.\<close>

definition error_key :: "jsstring \<Rightarrow> edu_field \<Rightarrow> jsstring" where
  "error_key id' f = id' @ str ''-'' @ edu_field_name f"

definition validateField ::
  "jsstring \<Rightarrow> edu_field \<Rightarrow> jsstring \<Rightarrow> EducationForm_state \<Rightarrow> EducationForm_state \<times> bool" where
  "validateField id' f v st =
     (let errors = validationErrors st;
          key = error_key id' f;
          errors =
            (if f = StartDate \<or> f = EndDate then
               (if v \<noteq> [] \<and> \<not> validateDate v
                then AList.update key (str ''Invalid date format (use YYYY-MM or Present)'') errors
                else AList.delete key errors)
             else errors);
          errors =
            (if f = Gpa then
               (if v \<noteq> [] then
                  (case gpa_match v of
                     None \<Rightarrow> AList.update key (str ''Format: 3.8/4.0'') errors
                   | Some (earned, total') \<Rightarrow>
                       if number_gt (parseFloat earned) (parseFloat total')
                       then AList.update key (str ''GPA cannot exceed maximum'') errors
                       else AList.delete key errors)
                else AList.delete key errors)
             else errors)
      in (st\<lparr>validationErrors := errors\<rparr>, errors = []))"

definition updateEducation ::
  "jsstring \<Rightarrow> edu_field \<Rightarrow> jsstring \<Rightarrow> Education list \<Rightarrow> EducationForm_state \<Rightarrow>
     Education list \<times> EducationForm_state" where
  "updateEducation id' f v data st =
     (map (\<lambda>edu. if edu_id edu = id' then set_edu_field f (sanitizeString v) edu else edu) data,
      fst (validateField id' f v st))"

section \<open>Experience section (form-sections/ExperienceForm)\<close>

text \<open>
  The component's own state is the repository list and two display flags; it holds no
  error map. Every operation returns the list it hands to \<open>onExperiencesChange\<close>.
\<close>

definition newExp :: "int \<Rightarrow> jsstring \<Rightarrow> Experience" where
  "newExp now type =
     \<lparr>exp_id = str ''exp'' @ int_toString now, exp_type = type, title = [], organization = [],
      exp_location = [], exp_startDate = [], exp_endDate = [], description = [],
      technologies = [], repoId = None, repoData = None\<rparr>"

definition addExperience :: "int \<Rightarrow> jsstring \<Rightarrow> Experience list \<Rightarrow> Experience list" where
  "addExperience now type exps = exps @ [newExp now type]"

datatype exp_field = Title | Organization | Location | ExpStartDate | ExpEndDate | Description

fun set_exp_field :: "exp_field \<Rightarrow> jsstring \<Rightarrow> Experience \<Rightarrow> Experience" where
  "set_exp_field Title v e = e\<lparr>title := v\<rparr>"
| "set_exp_field Organization v e = e\<lparr>organization := v\<rparr>"
| "set_exp_field Location v e = e\<lparr>exp_location := v\<rparr>"
| "set_exp_field ExpStartDate v e = e\<lparr>exp_startDate := v\<rparr>"
| "set_exp_field ExpEndDate v e = e\<lparr>exp_endDate := v\<rparr>"
| "set_exp_field Description v e = e\<lparr>description := v\<rparr>"

fun get_exp_field :: "exp_field \<Rightarrow> Experience \<Rightarrow> jsstring" where
  "get_exp_field Title e = title e"
| "get_exp_field Organization e = organization e"
| "get_exp_field Location e = exp_location e"
| "get_exp_field ExpStartDate e = exp_startDate e"
| "get_exp_field ExpEndDate e = exp_endDate e"
| "get_exp_field Description e = description e"

definition updateExperience ::
  "jsstring \<Rightarrow> exp_field \<Rightarrow> jsstring \<Rightarrow> Experience list \<Rightarrow> Experience list" where
  "updateExperience id' f v exps =
     map (\<lambda>e. if exp_id e = id'
               then set_exp_field f (if f = Description then sanitizeDescription v else sanitizeString v) e
               else e) exps"

definition deleteExperience :: "jsstring \<Rightarrow> Experience list \<Rightarrow> Experience list" where
  "deleteExperience id' exps = filter (\<lambda>e. exp_id e \<noteq> id') exps"

section \<open>Form orchestrator (components/ResumeForm)\<close>

record Section =
  sec_id :: jsstring
  sec_label :: jsstring

definition SECTIONS :: "Section list" where
  "SECTIONS =
     [\<lparr>sec_id = str ''personal'', sec_label = str ''Personal Info''\<rparr>,
      \<lparr>sec_id = str ''education'', sec_label = str ''Education''\<rparr>,
      \<lparr>sec_id = str ''experience'', sec_label = str ''Experience & Projects''\<rparr>]"

subsection \<open>loadSavedFormData\<close>

text \<open>
  \<open>getItem\<close> yields \<open>null\<close> (\<open>None\<close>) or the stored string; a string is truthy when it
  is not empty. \<open>JSON.parse\<close> is a parameter: \<open>None\<close> when it throws, else the value it
  returns. The body of the \<^verbatim>\<open>try\<close> block either returns a value, throws, or falls off
  its end; the built-in template \<open>mockResumeData\<close> is a parameter too.
\<close>

datatype 'a completion = Returns 'a | Throws | Falls_through

definition truthy :: "jsstring option \<Rightarrow> bool" where
  "truthy v \<longleftrightarrow> (case v of None \<Rightarrow> False | Some s \<Rightarrow> s \<noteq> [])"

definition parse_or_throw :: "(jsstring \<Rightarrow> 'a option) \<Rightarrow> jsstring option \<Rightarrow> 'a completion" where
  "parse_or_throw JSON_parse v =
     (case JSON_parse (the v) of None \<Rightarrow> Throws | Some r \<Rightarrow> Returns r)"

definition load_try :: "(jsstring \<Rightarrow> 'a option) \<Rightarrow> jsstring option \<Rightarrow> jsstring option \<Rightarrow> 'a completion" where
  "load_try JSON_parse sessionData localData =
     (if truthy sessionData then parse_or_throw JSON_parse sessionData
      else if truthy localData then parse_or_throw JSON_parse localData
      else Falls_through)"

definition loadSavedFormData ::
  "(jsstring \<Rightarrow> 'a option) \<Rightarrow> 'a \<Rightarrow> jsstring option \<Rightarrow> jsstring option \<Rightarrow> 'a" where
  "loadSavedFormData JSON_parse mockResumeData sessionData localData =
     (case load_try JSON_parse sessionData localData of
        Returns r \<Rightarrow> r
      | Throws \<Rightarrow> mockResumeData
      | Falls_through \<Rightarrow> mockResumeData)"

text \<open>The values that \<open>JSON.parse\<close> returns.\<close>

datatype json =
  JNull | JBool bool | JNumber rat | JString jsstring | JArray "json list"
  | JObject "(jsstring \<times> json) list"

subsection \<open>State, validation and submission\<close>

record ResumeForm_state =
  currentSection :: jsstring
  formData :: ResumeData
  errors :: error_map

definition ResumeForm_updateEducation :: "Education list \<Rightarrow> ResumeForm_state \<Rightarrow> ResumeForm_state" where
  "ResumeForm_updateEducation updatedEducation st =
     st\<lparr>formData := (formData st)\<lparr>education := updatedEducation\<rparr>\<rparr>"

definition updateExperiences :: "Experience list \<Rightarrow> ResumeForm_state \<Rightarrow> ResumeForm_state" where
  "updateExperiences updatedExperiences st =
     st\<lparr>formData := (formData st)\<lparr>experiences := updatedExperiences\<rparr>\<rparr>"

definition incompleteEducation :: "ResumeData \<Rightarrow> bool" where
  "incompleteEducation data \<longleftrightarrow>
     list_ex (\<lambda>edu. institution edu = [] \<or> degree edu = [] \<or> field edu = [] \<or>
                    startDate edu = [] \<or> endDate edu = []) (education data)"

text \<open>\<^verbatim>\<open>!exp.repoId\<close>: the link is \<open>null\<close> or the empty string.\<close>

definition manual :: "Experience \<Rightarrow> bool" where
  "manual exp' \<longleftrightarrow> \<not> truthy (repoId exp')"

definition incompleteExperiences :: "ResumeData \<Rightarrow> bool" where
  "incompleteExperiences data \<longleftrightarrow>
     list_ex (\<lambda>exp'. title exp' = [] \<or> organization exp' = [] \<or>
                    exp_startDate exp' = [] \<or> exp_endDate exp' = [])
       (filter manual (experiences data))"

definition validateFormData :: "ResumeData \<Rightarrow> error_map" where
  "validateFormData data =
     (let errors = [];
          errors =
            (if fullName (personalInfo data) = [] \<or> trim (fullName (personalInfo data)) = []
             then AList.update (str ''fullName'') (str ''Full name is required'') errors
             else errors);
          errors =
            (if email (personalInfo data) = [] \<or> trim (email (personalInfo data)) = []
             then AList.update (str ''email'') (str ''Email is required'') errors
             else errors);
          errors =
            (if length (education data) > 0 \<and> incompleteEducation data
             then AList.update (str ''education'')
                    (str ''Please complete all education entries or remove incomplete ones'') errors
             else errors);
          errors =
            (if incompleteExperiences data
             then AList.update (str ''experiences'')
                    (str ''Please complete all experience entries (title, organization, dates) or remove incomplete ones'')
                    errors
             else errors);
          errors =
            (if length (selectedRepoIds data) = 0 \<and> length (filter manual (experiences data)) = 0
             then AList.update (str ''content'')
                    (str ''Please select at least one GitHub repository or add a manual experience entry'')
                    errors
             else errors)
      in errors)"

text \<open>
  \<open>handleSubmit\<close> returns the new state and the argument of the call of \<open>onSubmit\<close>, the
  Submission Collaborator, when it makes one.
\<close>

definition handleSubmit :: "ResumeForm_state \<Rightarrow> ResumeForm_state \<times> ResumeData option" where
  "handleSubmit st =
     (let validationErrors = validateFormData (formData st) in
      if length (map fst validationErrors) > 0 then (st\<lparr>errors := validationErrors\<rparr>, None)
      else (st\<lparr>errors := []\<rparr>, Some (formData st)))"

subsection \<open>Section cursor\<close>

text \<open>\<^verbatim>\<open>Array.prototype.findIndex\<close>: the index of the first element that satisfies \<open>p\<close>, or -1.\<close>

fun findIndex :: "('a \<Rightarrow> bool) \<Rightarrow> 'a list \<Rightarrow> int" where
  "findIndex p [] = - 1"
| "findIndex p (x # xs) =
     (if p x then 0 else (let i = findIndex p xs in if i < 0 then - 1 else i + 1))"

definition getCurrentSectionIndex :: "jsstring \<Rightarrow> int" where
  "getCurrentSectionIndex cur = findIndex (\<lambda>s. sec_id s = cur) SECTIONS"

definition initialSection :: jsstring where
  "initialSection = str ''personal''"

definition goToNextSection :: "jsstring \<Rightarrow> jsstring" where
  "goToNextSection cur =
     (let currentIndex = getCurrentSectionIndex cur in
      if currentIndex < int (length SECTIONS) - 1 then sec_id (SECTIONS ! nat (currentIndex + 1))
      else cur)"

definition goToPrevSection :: "jsstring \<Rightarrow> jsstring" where
  "goToPrevSection cur =
     (let currentIndex = getCurrentSectionIndex cur in
      if currentIndex > 0 then sec_id (SECTIONS ! nat (currentIndex - 1)) else cur)"

text \<open>
  The events that move the cursor: the two navigation buttons, and a button of the tab
  strip, which calls \<open>setCurrentSection\<close> with the identifier of its section.
\<close>

datatype nav_event = Next | Previous | Jump jsstring

fun nav_step :: "jsstring \<Rightarrow> nav_event \<Rightarrow> jsstring" where
  "nav_step cur Next = goToNextSection cur"
| "nav_step cur Previous = goToPrevSection cur"
| "nav_step cur (Jump sectionId) = sectionId"

definition section_ids :: "jsstring list" where
  "section_ids = map sec_id SECTIONS"

text \<open>The tab strip has one button for each element of \<open>SECTIONS\<close> and no other.\<close>

fun from_tab_strip :: "nav_event \<Rightarrow> bool" where
  "from_tab_strip (Jump sectionId) \<longleftrightarrow> sectionId \<in> set section_ids"
| "from_tab_strip _ \<longleftrightarrow> True"

section \<open>Change events across the section boundary\<close>

text \<open>
  The handler of an input, \<^verbatim>\<open>(e) => updateEducation(edu.id, field, e.target.value)\<close>,
  runs the section's update, which hands the new list to the orchestrator's callback
  (\<open>onChange\<close> is \<open>ResumeForm_updateEducation\<close>, \<open>onExperiencesChange\<close> is
  \<open>updateExperiences\<close>). Here the value is any primitive JavaScript value, so that what
  can throw is in the model: a truthy value that is not a string has no method
  \<open>replace\<close> or \<open>match\<close>, and the call of one throws \<open>TypeError\<close>. (The Number \<open>NaN\<close>,
  falsy like 0, is left out.)
\<close>

datatype js_value = JSUndefined | JSNull | JSBool bool | JSNum rat | JSStr jsstring

datatype js_error = TypeError

definition falsy :: "js_value \<Rightarrow> bool" where
  "falsy v \<longleftrightarrow>
     (case v of JSUndefined \<Rightarrow> True | JSNull \<Rightarrow> True | JSBool b \<Rightarrow> \<not> b | JSNum n \<Rightarrow> n = 0
      | JSStr s \<Rightarrow> s = [])"

text \<open>
  \<^verbatim>\<open>if (!input) return ''; return input.replace(...). ... .trim();\<close> on any value: on a
  string that is not empty this is \<open>sanitizeString\<close>, whose first line gives the same on
  the empty one.
\<close>

definition sanitizeString_of :: "js_value \<Rightarrow> js_error + jsstring" where
  "sanitizeString_of input =
     (if falsy input then Inr []
      else case input of JSStr s \<Rightarrow> Inr (sanitizeString s) | _ \<Rightarrow> Inl TypeError)"

definition sanitizeDescription_of :: "js_value \<Rightarrow> js_error + jsstring" where
  "sanitizeDescription_of input =
     (if falsy input then Inr []
      else case input of JSStr s \<Rightarrow> Inr (sanitizeDescription s) | _ \<Rightarrow> Inl TypeError)"

text \<open>
  \<open>validateDate\<close> on any value: a value that is not a string is not identical to
  \<open>'Present'\<close>, and \<open>test\<close> reads its text, which for \<open>undefined\<close>, \<open>null\<close>, a boolean or a
  number never has four digits before a hyphen.
\<close>

definition validateDate_of :: "js_value \<Rightarrow> bool" where
  "validateDate_of date = (case date of JSStr s \<Rightarrow> validateDate s | _ \<Rightarrow> False)"

definition gpa_match_of :: "js_value \<Rightarrow> js_error + (jsstring \<times> jsstring) option" where
  "gpa_match_of v = (case v of JSStr s \<Rightarrow> Inr (gpa_match s) | _ \<Rightarrow> Inl TypeError)"

text \<open>\<open>validateField\<close> on any value, line by line; it throws where \<open>value.match\<close> does.\<close>

definition validateField_of ::
  "jsstring \<Rightarrow> edu_field \<Rightarrow> js_value \<Rightarrow> EducationForm_state \<Rightarrow>
     js_error + EducationForm_state \<times> bool" where
  "validateField_of id' f v st =
     (let errors = validationErrors st;
          key = error_key id' f;
          errors =
            (if f = StartDate \<or> f = EndDate then
               (if \<not> falsy v \<and> \<not> validateDate_of v
                then AList.update key (str ''Invalid date format (use YYYY-MM or Present)'') errors
                else AList.delete key errors)
             else errors);
          finish = (\<lambda>errors. Inr (st\<lparr>validationErrors := errors\<rparr>, errors = []))
      in if f = Gpa then
           (if \<not> falsy v then
              (case gpa_match_of v of
                 Inl e \<Rightarrow> Inl e
               | Inr None \<Rightarrow> finish (AList.update key (str ''Format: 3.8/4.0'') errors)
               | Inr (Some (earned, total')) \<Rightarrow>
                   if number_gt (parseFloat earned) (parseFloat total')
                   then finish (AList.update key (str ''GPA cannot exceed maximum'') errors)
                   else finish (AList.delete key errors))
            else finish (AList.delete key errors))
         else finish errors)"

text \<open>\<^verbatim>\<open>Array.prototype.map\<close> with a callback that can throw: the first throw ends the loop.\<close>

fun map_throwing :: "('a \<Rightarrow> js_error + 'b) \<Rightarrow> 'a list \<Rightarrow> js_error + 'b list" where
  "map_throwing g [] = Inr []"
| "map_throwing g (x # xs) =
     (case g x of
        Inl e \<Rightarrow> Inl e
      | Inr y \<Rightarrow> (case map_throwing g xs of Inl e \<Rightarrow> Inl e | Inr ys \<Rightarrow> Inr (y # ys)))"

text \<open>
  What a handler leaves behind: it ran to its end, or an error left it uncaught; either
  way with the state reached by then.
\<close>

datatype 's handled = Completed 's | Thrown js_error 's

text \<open>
  The education input: \<open>data.map\<close> sanitizes the value for each entry with the id, then
  \<open>onChange\<close> stores the list, then \<open>validateField\<close> runs.
\<close>

definition education_input_change ::
  "jsstring \<Rightarrow> edu_field \<Rightarrow> js_value \<Rightarrow> ResumeForm_state \<times> EducationForm_state \<Rightarrow>
     (ResumeForm_state \<times> EducationForm_state) handled" where
  "education_input_change id' f v s =
     (let (rst, st) = s in
      case map_throwing
             (\<lambda>edu. if edu_id edu = id'
                     then (case sanitizeString_of v of
                             Inl e \<Rightarrow> Inl e | Inr x \<Rightarrow> Inr (set_edu_field f x edu))
                     else Inr edu)
             (education (formData rst)) of
        Inl e \<Rightarrow> Thrown e (rst, st)
      | Inr updated \<Rightarrow>
          (let rst' = ResumeForm_updateEducation updated rst in
           case validateField_of id' f v st of
             Inl e \<Rightarrow> Thrown e (rst', st)
           | Inr (st', ok) \<Rightarrow> Completed (rst', st')))"

text \<open>The experience input: \<open>experiences.map\<close>, then \<open>onExperiencesChange\<close>.\<close>

definition experience_input_change ::
  "jsstring \<Rightarrow> exp_field \<Rightarrow> js_value \<Rightarrow> ResumeForm_state \<Rightarrow> ResumeForm_state handled" where
  "experience_input_change id' f v rst =
     (case map_throwing
             (\<lambda>e. if exp_id e = id'
                   then (case (if f = Description then sanitizeDescription_of v
                               else sanitizeString_of v) of
                           Inl err \<Rightarrow> Inl err | Inr x \<Rightarrow> Inr (set_exp_field f x e))
                   else Inr e)
             (experiences (formData rst)) of
        Inl err \<Rightarrow> Thrown err rst
      | Inr updated \<Rightarrow> Completed (updateExperiences updated rst))"

section \<open>Repository tags (services/githubService)\<close>

datatype tag_type = Topic | Language | Generated

type_synonym tag = "jsstring \<times> tag_type"

text \<open>
  \<open>getRepositoryTags\<close> threads the array \<open>tags\<close> and the set \<open>seen\<close> through three
  loops. \<^verbatim>\<open>String.prototype.toLowerCase\<close> is a parameter. \<^verbatim>\<open>xs?.forEach(f)\<close> does
  nothing when \<open>xs\<close> is undefined.
\<close>

definition addTag ::
  "(jsstring \<Rightarrow> jsstring) \<Rightarrow> jsstring \<Rightarrow> tag_type \<Rightarrow> tag list \<times> jsstring set \<Rightarrow> tag list \<times> jsstring set" where
  "addTag toLowerCase name type st =
     (let (tags, seen) = st; normalized = trim (toLowerCase name) in
      if normalized \<notin> seen \<and> name \<noteq> [] then (tags @ [(name, type)], insert normalized seen)
      else (tags, seen))"

definition forEach_opt :: "'a list option \<Rightarrow> ('a \<Rightarrow> 's \<Rightarrow> 's) \<Rightarrow> 's \<Rightarrow> 's" where
  "forEach_opt xs f st = (case xs of None \<Rightarrow> st | Some l \<Rightarrow> fold f l st)"

definition getRepositoryTags :: "(jsstring \<Rightarrow> jsstring) \<Rightarrow> 'a Repository_scheme \<Rightarrow> tag list" where
  "getRepositoryTags toLowerCase repo =
     (let st = ([], {});
          st = forEach_opt (topics repo) (\<lambda>topic. addTag toLowerCase topic Topic) st;
          st = forEach_opt (languages repo) (\<lambda>lang. addTag toLowerCase lang Language) st;
          st = forEach_opt (generatedTags repo) (\<lambda>tag. addTag toLowerCase tag Generated) st
      in fst st)"

text \<open>
  The candidates in the order of the three loops, and the list in which the first
  candidate of each normalised name wins and a candidate with an empty name is left out.
\<close>

definition candidates :: "'a Repository_scheme \<Rightarrow> tag list" where
  "candidates repo =
     map (\<lambda>n. (n, Topic)) (case topics repo of None \<Rightarrow> [] | Some l \<Rightarrow> l) @
     map (\<lambda>n. (n, Language)) (case languages repo of None \<Rightarrow> [] | Some l \<Rightarrow> l) @
     map (\<lambda>n. (n, Generated)) (case generatedTags repo of None \<Rightarrow> [] | Some l \<Rightarrow> l)"

fun first_wins :: "(jsstring \<Rightarrow> jsstring) \<Rightarrow> tag list \<Rightarrow> tag list" where
  "first_wins key [] = []"
| "first_wins key (c # cs) =
     (if fst c = [] then first_wins key cs
      else c # first_wins key (filter (\<lambda>d. key (fst d) \<noteq> key (fst c)) cs))"

section \<open>Sample records\<close>

text \<open>A complete record with the given full name, used to run the operations on.\<close>

definition sample_education :: Education where
  "sample_education =
     \<lparr>edu_id = str ''edu1'', institution = str ''MIT'', degree = str ''BSc'', field = str ''CS'',
      startDate = str ''2018-09'', endDate = str ''Present'', gpa = str ''3.8/4.0'',
      achievements = []\<rparr>"

definition sample_experience :: Experience where
  "sample_experience =
     \<lparr>exp_id = str ''exp1'', exp_type = str ''work'', title = str ''Engineer'',
      organization = str ''Acme'', exp_location = [], exp_startDate = str ''2022-07'',
      exp_endDate = str ''Present'', description = [], technologies = [], repoId = None,
      repoData = None\<rparr>"

definition sample_state :: "jsstring \<Rightarrow> ResumeForm_state" where
  "sample_state name =
     \<lparr>currentSection = str ''experience'',
      formData =
        \<lparr>personalInfo =
           \<lparr>fullName = name, email = str ''a@b.c'', phone = [], location = [], linkedin = [],
            github = [], website = [], profileImage = [], showContactIcons = False\<rparr>,
         education = [sample_education], experiences = [sample_experience],
         selectedRepoIds = []\<rparr>,
      errors = []\<rparr>"

text \<open>The same record with no experience entry and no selected repository.\<close>

definition empty_content_state :: ResumeForm_state where
  "empty_content_state =
     (sample_state (str ''Ada''))\<lparr>formData :=
        (formData (sample_state (str ''Ada'')))\<lparr>experiences := []\<rparr>\<rparr>"

text \<open>A repository whose lists repeat a name in other cases and hold empty and blank names.\<close>

definition sample_repo :: Repository where
  "sample_repo =
     \<lparr>repo_id = str ''42'', repo_name = str ''demo'',
      topics = Some [str ''React'', str '' react '', [], str '' ''],
      languages = None,
      generatedTags = Some [str ''REACT'', str ''Vue'', str ''  '']\<rparr>"

text \<open>The state of a freshly mounted education section.\<close>

definition initial_EducationForm :: EducationForm_state where
  "initial_EducationForm = \<lparr>editingId = None, validationErrors = []\<rparr>"

section \<open>Properties\<close>

subsection \<open>Date validator\<close>

lemma dateRegex_test_shape:
  "dateRegex_test s \<Longrightarrow> \<exists>y1 y2 y3 y4 m1 m2. s = [y1, y2, y3, y4, 45, m1, m2] \<and>
     isDigit y1 \<and> isDigit y2 \<and> isDigit y3 \<and> isDigit y4 \<and>
     ((m1 = 48 \<and> 49 \<le> m2 \<and> m2 \<le> 57) \<or> (m1 = 49 \<and> 48 \<le> m2 \<and> m2 \<le> 50))"
  by (induction s rule: dateRegex_test.induct) auto

lemma two_digits_month:
  assumes "(m1 = 48 \<and> 49 \<le> m2 \<and> m2 \<le> 57) \<or> (m1 = 49 \<and> 48 \<le> m2 \<and> m2 \<le> 50)"
  shows "\<exists>m. 1 \<le> m \<and> m \<le> 12 \<and> [m1, m2] = two_digits m"
proof -
  let ?m = "(m1 - 48) * 10 + (m2 - 48)"
  from assms have "1 \<le> ?m" "?m \<le> 12" "48 + ?m div 10 = m1" "48 + ?m mod 10 = m2"
    by auto
  then show ?thesis
    unfolding two_digits_def by metis
qed

lemma dateRegex_test_year_month: "dateRegex_test s \<longleftrightarrow> year_month s"
proof
  assume "dateRegex_test s"
  then obtain y1 y2 y3 y4 m1 m2 where s: "s = [y1, y2, y3, y4, 45, m1, m2]"
    and d: "isDigit y1" "isDigit y2" "isDigit y3" "isDigit y4"
    and m: "(m1 = 48 \<and> 49 \<le> m2 \<and> m2 \<le> 57) \<or> (m1 = 49 \<and> 48 \<le> m2 \<and> m2 \<le> 50)"
    using dateRegex_test_shape by blast
  from two_digits_month [OF m] obtain k where "1 \<le> k" "k \<le> 12" "[m1, m2] = two_digits k"
    by blast
  with s have "s = [y1, y2, y3, y4] @ str ''-'' @ two_digits k"
    by (simp add: str_def)
  with d \<open>1 \<le> k\<close> \<open>k \<le> 12\<close> show "year_month s"
    unfolding year_month_def by blast
next
  assume "year_month s"
  then obtain y1 y2 y3 y4 m where d: "isDigit y1" "isDigit y2" "isDigit y3" "isDigit y4"
    and m: "1 \<le> m" "m \<le> 12" and s: "s = [y1, y2, y3, y4] @ str ''-'' @ two_digits m"
    unfolding year_month_def by blast
  from m have "m = 1 \<or> m = 2 \<or> m = 3 \<or> m = 4 \<or> m = 5 \<or> m = 6 \<or> m = 7 \<or> m = 8 \<or> m = 9 \<or>
      m = 10 \<or> m = 11 \<or> m = 12"
    by arith
  with s d show "dateRegex_test s"
    by (auto simp: str_def two_digits_def)
qed

text \<open>
  C1 (as the code has it). The date validator accepts exactly the literal \<open>Present\<close>
  (capital P, case-sensitive) and the strings \<open>YYYY-MM\<close> of four decimal digits, a hyphen
  and a two-digit month number in 01..12; every other string is rejected.
\<close>

theorem validateDate_accepts_exactly:
  "validateDate s \<longleftrightarrow> s = str ''Present'' \<or> year_month s"
  by (simp add: validateDate_def dateRegex_test_year_month)

text \<open>
  C1 as the spec words it fails: the lower-case literal \<open>present\<close> is rejected, and the
  capitalised \<open>Present\<close>, which is not the spec's literal, is accepted.
\<close>

theorem validateDate_present_counterexample:
  "\<not> validateDate (str ''present'') \<and> validateDate (str ''Present'')"
  by (simp add: validateDate_def str_def)

subsection \<open>Persistence load\<close>

text \<open>
  C2 (as the code has it). The load reads the session-scoped value first. When that value
  is present (not \<open>null\<close>, not empty) the result is its parse, and the built-in template
  when it does not parse: the durable store is not consulted. When the session-scoped
  value is absent, the durable value is read: the result is its parse, and the template
  when it is absent or does not parse.
\<close>

theorem loadSavedFormData_tiers:
  "(truthy sessionData \<longrightarrow>
      loadSavedFormData JSON_parse mockResumeData sessionData localData =
        (case JSON_parse (the sessionData) of Some r \<Rightarrow> r | None \<Rightarrow> mockResumeData)) \<and>
   (\<not> truthy sessionData \<and> truthy localData \<longrightarrow>
      loadSavedFormData JSON_parse mockResumeData sessionData localData =
        (case JSON_parse (the localData) of Some r \<Rightarrow> r | None \<Rightarrow> mockResumeData)) \<and>
   (\<not> truthy sessionData \<and> \<not> truthy localData \<longrightarrow>
      loadSavedFormData JSON_parse mockResumeData sessionData localData = mockResumeData)"
  by (simp add: loadSavedFormData_def load_try_def parse_or_throw_def split: option.split)

text \<open>
  The three tiers at concrete stores, with a parser that accepts the text \<open>{}\<close> and
  rejects every other: a session value wins over a durable one, an absent session value
  gives way to the durable one, and two absent values give the template.
\<close>

theorem loadSavedFormData_tiers_witness:
  "truthy (Some (str ''{}'')) \<and> \<not> truthy None \<and> \<not> truthy (Some []) \<and>
   loadSavedFormData (\<lambda>s. if s = str ''{}'' then Some (JObject []) else None) JNull
     (Some (str ''{}'')) (Some (str ''x'')) = JObject [] \<and>
   loadSavedFormData (\<lambda>s. if s = str ''{}'' then Some (JObject []) else None) JNull
     (Some []) (Some (str ''{}'')) = JObject [] \<and>
   loadSavedFormData (\<lambda>s. if s = str ''{}'' then Some (JObject []) else None) JNull
     None None = JNull"
proof -
  let ?P = "\<lambda>s. if s = str ''{}'' then Some (JObject []) else None"
  have t: "truthy (Some (str ''{}''))" "\<not> truthy None" "\<not> truthy (Some [])"
    by (simp_all add: truthy_def str_def)
  from t loadSavedFormData_tiers [of "Some (str ''{}'')" ?P JNull "Some (str ''x'')"]
  have "loadSavedFormData ?P JNull (Some (str ''{}'')) (Some (str ''x'')) = JObject []"
    by simp
  moreover from t loadSavedFormData_tiers [of "Some []" ?P JNull "Some (str ''{}'')"]
  have "loadSavedFormData ?P JNull (Some []) (Some (str ''{}'')) = JObject []"
    by simp
  moreover from t loadSavedFormData_tiers [of None ?P JNull None]
  have "loadSavedFormData ?P JNull None None = JNull"
    by simp
  ultimately show ?thesis using t by simp
qed

text \<open>
  C2 as the spec words it fails: with the unparseable text \<open>{\<close> in the session store and
  the parseable text \<open>{}\<close> in the durable store, the load returns the template (here
  \<open>JNull\<close>) and not the durable record \<open>JObject []\<close>, although the same durable value is
  returned when the session store is empty.
\<close>

theorem loadSavedFormData_corrupt_session_counterexample:
  "loadSavedFormData (\<lambda>s. if s = str ''{}'' then Some (JObject []) else None) JNull
     (Some (str ''{'')) (Some (str ''{}'')) = JNull \<and>
   loadSavedFormData (\<lambda>s. if s = str ''{}'' then Some (JObject []) else None) JNull
     None (Some (str ''{}'')) = JObject []"
  by (simp add: loadSavedFormData_def load_try_def parse_or_throw_def truthy_def str_def)

subsection \<open>Whole-record validation and submission\<close>

lemma trim_Nil_iff: "trim s = [] \<longleftrightarrow> (\<forall>c\<in>set s. isWhiteSpace c)"
proof -
  let ?u = "dropWhile isWhiteSpace s"
  have "trim s = [] \<longleftrightarrow> (\<forall>x\<in>set ?u. isWhiteSpace x)"
    by (simp add: trim_def dropWhile_eq_Nil_conv)
  also have "\<dots> \<longleftrightarrow> ?u = []"
  proof
    assume a: "\<forall>x\<in>set ?u. isWhiteSpace x"
    show "?u = []"
    proof (rule ccontr)
      assume "?u \<noteq> []"
      then have "\<not> isWhiteSpace (hd ?u)" "hd ?u \<in> set ?u"
        by (simp_all add: hd_dropWhile)
      with a show False by blast
    qed
  next
    assume "?u = []"
    then show "\<forall>x\<in>set ?u. isWhiteSpace x" by (simp only: list.set ball_empty)
  qed
  also have "\<dots> \<longleftrightarrow> (\<forall>c\<in>set s. isWhiteSpace c)"
    by (simp add: dropWhile_eq_Nil_conv)
  finally show ?thesis .
qed

lemma incompleteEducation_iff:
  "incompleteEducation data \<longleftrightarrow>
     (\<exists>edu\<in>set (education data). institution edu = [] \<or> degree edu = [] \<or> field edu = [] \<or>
        startDate edu = [] \<or> endDate edu = [])"
  by (simp add: incompleteEducation_def list_ex_iff)

lemma incompleteExperiences_iff:
  "incompleteExperiences data \<longleftrightarrow>
     (\<exists>e\<in>set (experiences data). manual e \<and>
        (title e = [] \<or> organization e = [] \<or> exp_startDate e = [] \<or> exp_endDate e = []))"
  by (auto simp: incompleteExperiences_def list_ex_iff)

lemma filter_manual_Nil_iff:
  "filter manual (experiences data) = [] \<longleftrightarrow> \<not> list_ex manual (experiences data)"
  by (simp add: filter_empty_conv list_ex_iff)

text \<open>
  C3. A record with an email that is not empty after trimming, complete education
  entries, complete unlinked experience entries and some content, but with a full name of
  white space only (or empty): \<open>handleSubmit\<close> replaces the error state with the single
  entry \<open>fullName\<close> and does not call \<open>onSubmit\<close>.
\<close>

theorem handleSubmit_fullName_only:
  assumes "\<forall>c\<in>set (fullName (personalInfo (formData st))). isWhiteSpace c"
    and "trim (email (personalInfo (formData st))) \<noteq> []"
    and "\<forall>edu\<in>set (education (formData st)).
           institution edu \<noteq> [] \<and> degree edu \<noteq> [] \<and> field edu \<noteq> [] \<and>
           startDate edu \<noteq> [] \<and> endDate edu \<noteq> []"
    and "\<forall>e\<in>set (experiences (formData st)). manual e \<longrightarrow>
           title e \<noteq> [] \<and> organization e \<noteq> [] \<and> exp_startDate e \<noteq> [] \<and> exp_endDate e \<noteq> []"
    and "selectedRepoIds (formData st) \<noteq> [] \<or> list_ex manual (experiences (formData st))"
  shows "handleSubmit st =
           (st\<lparr>errors := [(str ''fullName'', str ''Full name is required'')]\<rparr>, None)"
proof -
  let ?d = "formData st"
  from assms(1) have n: "trim (fullName (personalInfo ?d)) = []"
    by (simp add: trim_Nil_iff)
  from assms(2) have e: "email (personalInfo ?d) \<noteq> []"
    by (auto simp: trim_def)
  from assms(3) have ed: "\<not> incompleteEducation ?d"
    by (auto simp: incompleteEducation_iff)
  from assms(4) have ex: "\<not> incompleteExperiences ?d"
    by (auto simp: incompleteExperiences_iff)
  from assms(5) have c: "selectedRepoIds ?d \<noteq> [] \<or> filter manual (experiences ?d) \<noteq> []"
    by (simp add: filter_manual_Nil_iff)
  from n e assms(2) ed ex c
  have "validateFormData ?d = [(str ''fullName'', str ''Full name is required'')]"
    by (auto simp: validateFormData_def)
  then show ?thesis
    by (simp add: handleSubmit_def)
qed

text \<open>The sample record with a full name of two spaces meets every hypothesis of C3.\<close>

theorem handleSubmit_fullName_only_witness:
  "handleSubmit (sample_state (str ''  '')) =
     ((sample_state (str ''  ''))\<lparr>errors := [(str ''fullName'', str ''Full name is required'')]\<rparr>,
      None)"
  using handleSubmit_fullName_only [of "sample_state (str ''  '')"]
  by (simp add: sample_state_def sample_education_def sample_experience_def str_def
      isWhiteSpace_def trim_def manual_def truthy_def)

text \<open>
  C4. Validation records the entry \<open>content\<close> exactly when no repository is selected and
  no experience entry lacks a repository link. So a record with no selected repository
  and no experience entry is not submitted and its new error state has that entry; and
  once \<open>addExperience\<close> has appended an entry (which has no link), validation no longer
  records it.
\<close>

theorem validateFormData_content:
  "(str ''content'' \<in> set (map fst (validateFormData data)) \<longleftrightarrow>
      selectedRepoIds data = [] \<and> \<not> list_ex manual (experiences data)) \<and>
   (selectedRepoIds (formData st) = [] \<and> experiences (formData st) = [] \<longrightarrow>
      snd (handleSubmit st) = None \<and>
      str ''content'' \<in> set (map fst (errors (fst (handleSubmit st))))) \<and>
   str ''content'' \<notin>
     set (map fst (validateFormData (data\<lparr>experiences := addExperience now type (experiences data)\<rparr>)))"
proof -
  have keys: "set (map fst (AList.update k v al)) = insert k (set (map fst al))" for k v and al :: error_map
    using AList.dom_update [of k v al] by simp
  have 1: "str ''content'' \<in> set (map fst (validateFormData d)) \<longleftrightarrow>
      selectedRepoIds d = [] \<and> \<not> list_ex manual (experiences d)" for d
    by (simp add: validateFormData_def Let_def keys filter_manual_Nil_iff str_def)
  have 2: "snd (handleSubmit st) = None \<and>
      str ''content'' \<in> set (map fst (errors (fst (handleSubmit st))))"
    if "selectedRepoIds (formData st) = []" "experiences (formData st) = []"
  proof -
    from that 1 [of "formData st"]
    have "str ''content'' \<in> set (map fst (validateFormData (formData st)))"
      by simp
    then show ?thesis
      by (auto simp: handleSubmit_def Let_def)
  qed
  have "manual (newExp now type)"
    by (simp add: manual_def newExp_def truthy_def)
  then have 3: "str ''content'' \<notin>
     set (map fst (validateFormData (data\<lparr>experiences := addExperience now type (experiences data)\<rparr>)))"
    using 1 [of "data\<lparr>experiences := addExperience now type (experiences data)\<rparr>"]
    by (simp add: addExperience_def)
  from 1 2 3 show ?thesis by blast
qed

text \<open>
  The record without content is blocked with the entry \<open>content\<close>; with one appended
  experience entry the entry is gone.
\<close>

theorem validateFormData_content_witness:
  "selectedRepoIds (formData empty_content_state) = [] \<and>
   experiences (formData empty_content_state) = [] \<and>
   snd (handleSubmit empty_content_state) = None \<and>
   str ''content'' \<in> set (map fst (errors (fst (handleSubmit empty_content_state)))) \<and>
   str ''content'' \<notin> set (map fst (validateFormData
     ((formData empty_content_state)\<lparr>experiences :=
        addExperience 1730000000000 (str ''work'') (experiences (formData empty_content_state))\<rparr>)))"
  using validateFormData_content [of "formData empty_content_state" empty_content_state
      1730000000000 "str ''work''"]
  by (simp add: empty_content_state_def sample_state_def)

subsection \<open>Field updates of the section models\<close>

lemma get_set_edu_field:
  "get_edu_field g (set_edu_field f v e) = (if g = f then v else get_edu_field g e)"
  by (cases f; cases g) simp_all

lemma edu_id_set_edu_field: "edu_id (set_edu_field f v e) = edu_id e"
  by (cases f) simp_all

lemma achievements_set_edu_field: "achievements (set_edu_field f v e) = achievements e"
  by (cases f) simp_all

lemma get_set_exp_field:
  "get_exp_field g (set_exp_field f v e) = (if g = f then v else get_exp_field g e)"
  by (cases f; cases g) simp_all

lemma exp_id_set_exp_field: "exp_id (set_exp_field f v e) = exp_id e"
  by (cases f) simp_all

lemma map_of_update_same: "map_of (AList.update k v al) k = Some v"
  by (simp add: update_conv')

lemma map_of_delete_same: "map_of (AList.delete k al) k = None"
  by (simp add: delete_conv')

lemma updateEducation_written:
  "map (get_edu_field g) (fst (updateEducation i f v data st)) =
     map (\<lambda>e. if edu_id e = i \<and> g = f then sanitizeString v else get_edu_field g e) data"
  by (simp add: updateEducation_def get_set_edu_field)

lemma updateEducation_ids:
  "map edu_id (fst (updateEducation i f v data st)) = map edu_id data \<and>
   map achievements (fst (updateEducation i f v data st)) = map achievements data"
  by (simp add: updateEducation_def edu_id_set_edu_field achievements_set_edu_field)

lemma updateEducation_date_error:
  assumes "f = StartDate \<or> f = EndDate"
  shows "map_of (validationErrors (snd (updateEducation i f v data st))) (error_key i f) \<noteq> None
           \<longleftrightarrow> v \<noteq> [] \<and> \<not> validateDate v"
  using assms
  by (auto simp: updateEducation_def validateField_def Let_def map_of_update_same
      map_of_delete_same)

lemma updateEducation_gpa_error:
  "map_of (validationErrors (snd (updateEducation i Gpa v data st))) (error_key i Gpa) \<noteq> None
     \<longleftrightarrow> v \<noteq> [] \<and>
       (case gpa_match v of None \<Rightarrow> True
        | Some (earned, total') \<Rightarrow> number_gt (parseFloat earned) (parseFloat total'))"
  by (simp add: updateEducation_def validateField_def Let_def map_of_update_same
      map_of_delete_same split: option.split prod.split)

lemma updateEducation_other_field:
  assumes "f = Institution \<or> f = Degree \<or> f = Field"
  shows "validationErrors (snd (updateEducation i f v data st)) = validationErrors st"
  using assms by (auto simp: updateEducation_def validateField_def Let_def)

lemma updateExperience_written:
  "map (get_exp_field g) (updateExperience i f v exps) =
     map (\<lambda>e. if exp_id e = i \<and> g = f
               then (if f = Description then sanitizeDescription v else sanitizeString v)
               else get_exp_field g e) exps"
  by (auto simp: updateExperience_def get_set_exp_field simp del: set_exp_field.simps)

lemma map_throwing_Inr:
  "(\<And>x. g x = Inr (h x)) \<Longrightarrow> map_throwing g xs = Inr (map h xs)"
  by (induction xs) simp_all

lemma sanitizeString_of_JSStr: "sanitizeString_of (JSStr v) = Inr (sanitizeString v)"
  by (simp add: sanitizeString_of_def falsy_def sanitizeString_def)

lemma sanitizeDescription_of_JSStr:
  "sanitizeDescription_of (JSStr v) = Inr (sanitizeDescription v)"
  by (simp add: sanitizeDescription_of_def falsy_def sanitizeDescription_def)

lemma validateField_of_JSStr:
  "validateField_of i f (JSStr v) st = Inr (validateField i f v st)"
  by (simp add: validateField_of_def validateField_def Let_def falsy_def validateDate_of_def
      gpa_match_of_def split: option.split prod.split)

lemma education_input_change_JSStr:
  "education_input_change i f (JSStr v) (rst, st) =
     Completed
       (ResumeForm_updateEducation (fst (updateEducation i f v (education (formData rst)) st)) rst,
        snd (updateEducation i f v (education (formData rst)) st))"
proof -
  have "map_throwing
      (\<lambda>edu. if edu_id edu = i
              then (case sanitizeString_of (JSStr v) of
                      Inl e \<Rightarrow> Inl e | Inr x \<Rightarrow> Inr (set_edu_field f x edu))
              else Inr edu)
      (education (formData rst)) =
    Inr (map (\<lambda>edu. if edu_id edu = i then set_edu_field f (sanitizeString v) edu else edu)
      (education (formData rst)))"
    by (rule map_throwing_Inr) (simp add: sanitizeString_of_JSStr)
  then show ?thesis
    by (simp add: education_input_change_def validateField_of_JSStr updateEducation_def
        split: prod.split)
qed

lemma experience_input_change_JSStr:
  "experience_input_change i f (JSStr v) rst =
     Completed (updateExperiences (updateExperience i f v (experiences (formData rst))) rst)"
proof -
  have "map_throwing
      (\<lambda>e. if exp_id e = i
            then (case (if f = Description then sanitizeDescription_of (JSStr v)
                        else sanitizeString_of (JSStr v)) of
                    Inl err \<Rightarrow> Inl err | Inr x \<Rightarrow> Inr (set_exp_field f x e))
            else Inr e)
      (experiences (formData rst)) =
    Inr (map (\<lambda>e. if exp_id e = i
               then set_exp_field f
                 (if f = Description then sanitizeDescription v else sanitizeString v) e
               else e) (experiences (formData rst)))"
    by (rule map_throwing_Inr)
      (simp add: sanitizeString_of_JSStr sanitizeDescription_of_JSStr)
  then show ?thesis
    by (simp add: experience_input_change_def updateExperience_def)
qed

text \<open>
  The error branch of the model is live: the boolean \<open>true\<close> in place of the string makes
  the education handler throw before anything is stored.
\<close>

lemma education_input_change_boolean:
  "education_input_change (str ''edu1'') Degree (JSBool True)
     (sample_state (str ''Ada''), initial_EducationForm) =
     Thrown TypeError (sample_state (str ''Ada''), initial_EducationForm)"
  by (simp add: education_input_change_def sanitizeString_of_def falsy_def sample_state_def
      sample_education_def)

text \<open>
  C5 (as the code has it). In the education section, \<open>update(id, field, value)\<close> writes
  the strictly sanitized value into that field of every entry with that id and leaves
  the other fields, the ids and the other entries as they were, whatever the value; for
  a date field and for the GPA field it validates the raw value on its own and the error
  map has an entry under the key of id and field exactly when the value is not empty and
  invalid; for the other fields the error map is unchanged. In the experience section the
  update writes the sanitized value (the description keeps markup other than script
  blocks) in the same way, validates nothing, and leaves the orchestrator's error state
  as it was. Nothing is thrown across the boundary: for every string that an input
  delivers, valid or not, the handler of either section runs to its end, and the
  orchestrator's callback has stored the list that carries the value; the callback
  stores whatever list it is handed and leaves the error state alone.
\<close>

theorem update_writes_unconditionally:
  "map (get_edu_field g) (fst (updateEducation i f v data st)) =
     map (\<lambda>e. if edu_id e = i \<and> g = f then sanitizeString v else get_edu_field g e) data \<and>
   map edu_id (fst (updateEducation i f v data st)) = map edu_id data \<and>
   map achievements (fst (updateEducation i f v data st)) = map achievements data \<and>
   (f = StartDate \<or> f = EndDate \<longrightarrow>
      (map_of (validationErrors (snd (updateEducation i f v data st))) (error_key i f) \<noteq> None
         \<longleftrightarrow> v \<noteq> [] \<and> \<not> validateDate v)) \<and>
   (f = Gpa \<longrightarrow>
      (map_of (validationErrors (snd (updateEducation i f v data st))) (error_key i f) \<noteq> None
         \<longleftrightarrow> v \<noteq> [] \<and>
           (case gpa_match v of None \<Rightarrow> True
            | Some (earned, total') \<Rightarrow> number_gt (parseFloat earned) (parseFloat total')))) \<and>
   (f = Institution \<or> f = Degree \<or> f = Field \<longrightarrow>
      validationErrors (snd (updateEducation i f v data st)) = validationErrors st) \<and>
   map (get_exp_field g') (updateExperience i f' v exps) =
     map (\<lambda>e. if exp_id e = i \<and> g' = f'
               then (if f' = Description then sanitizeDescription v else sanitizeString v)
               else get_exp_field g' e) exps \<and>
   map exp_id (updateExperience i f' v exps) = map exp_id exps \<and>
   errors (updateExperiences (updateExperience i f' v exps) rst) = errors rst \<and>
   education_input_change i f (JSStr v) (rst, st) =
     Completed
       (ResumeForm_updateEducation (fst (updateEducation i f v (education (formData rst)) st)) rst,
        snd (updateEducation i f v (education (formData rst)) st)) \<and>
   experience_input_change i f' (JSStr v) rst =
     Completed (updateExperiences (updateExperience i f' v (experiences (formData rst))) rst) \<and>
   education (formData (ResumeForm_updateEducation updated rst)) = updated \<and>
   errors (ResumeForm_updateEducation updated rst) = errors rst \<and>
   experiences (formData (updateExperiences updated' rst)) = updated' \<and>
   errors (updateExperiences updated' rst) = errors rst"
proof -
  have cb: "education (formData (ResumeForm_updateEducation updated rst)) = updated"
    "errors (ResumeForm_updateEducation updated rst) = errors rst"
    "experiences (formData (updateExperiences updated' rst)) = updated'"
    "errors (updateExperiences updated' rst) = errors rst"
    by (simp_all add: ResumeForm_updateEducation_def updateExperiences_def)
  have "map exp_id (updateExperience i f' v exps) = map exp_id exps"
    by (simp add: updateExperience_def exp_id_set_exp_field)
  moreover have "errors (updateExperiences (updateExperience i f' v exps) rst) = errors rst"
    by (simp add: updateExperiences_def)
  ultimately show ?thesis
    using updateEducation_written [of g i f v data st] updateEducation_ids [of i f v data st]
      updateEducation_date_error [of f i v data st] updateEducation_gpa_error [of i v data st]
      updateEducation_other_field [of f i v data st] updateExperience_written [of g' i f' v exps]
      education_input_change_JSStr [of i f v rst st] experience_input_change_JSStr [of i f' v rst]
      cb
    by blast
qed

text \<open>
  An invalid start date in the sample education entry: the value is written, and the
  error map has the entry of that field; a valid one leaves no entry; and the handler
  that carries the invalid value runs to its end.
\<close>

theorem update_writes_unconditionally_witness:
  "\<not> validateDate (str ''soon'') \<and> validateDate (str ''2019-10'') \<and>
   map (get_edu_field StartDate) (fst (updateEducation (str ''edu1'') StartDate (str ''soon'')
     [sample_education] initial_EducationForm)) = [str ''soon''] \<and>
   map_of (validationErrors (snd (updateEducation (str ''edu1'') StartDate (str ''soon'')
     [sample_education] initial_EducationForm))) (error_key (str ''edu1'') StartDate) \<noteq> None \<and>
   map_of (validationErrors (snd (updateEducation (str ''edu1'') StartDate (str ''2019-10'')
     [sample_education] initial_EducationForm))) (error_key (str ''edu1'') StartDate) = None \<and>
   validationErrors (snd (updateEducation (str ''edu1'') Degree (str ''MSc'')
     [sample_education] initial_EducationForm)) = [] \<and>
   education_input_change (str ''edu1'') StartDate (JSStr (str ''soon''))
     (sample_state (str ''Ada''), initial_EducationForm) =
     Completed
       (ResumeForm_updateEducation
          (fst (updateEducation (str ''edu1'') StartDate (str ''soon'') [sample_education]
             initial_EducationForm))
          (sample_state (str ''Ada'')),
        snd (updateEducation (str ''edu1'') StartDate (str ''soon'') [sample_education]
          initial_EducationForm))"
proof -
  have v: "\<not> validateDate (str ''soon'')" "validateDate (str ''2019-10'')"
    by (simp_all add: validateDate_def str_def isDigit_def)
  have s: "sanitizeString (str ''soon'') = str ''soon''"
    by (simp add: sanitizeString_def str_def trim_def isWhiteSpace_def tag_match_def
        script_match_def lower_ascii_def isWordChar_def)
  have e: "edu_id sample_education = str ''edu1''"
    by (simp add: sample_education_def)
  have n: "str ''soon'' \<noteq> []"
    by (simp add: str_def)
  from update_writes_unconditionally
    [of StartDate "str ''edu1''" StartDate "str ''soon''" "[sample_education]" initial_EducationForm]
  have "map (get_edu_field StartDate) (fst (updateEducation (str ''edu1'') StartDate (str ''soon'')
      [sample_education] initial_EducationForm)) = [str ''soon'']"
    and "map_of (validationErrors (snd (updateEducation (str ''edu1'') StartDate (str ''soon'')
      [sample_education] initial_EducationForm))) (error_key (str ''edu1'') StartDate) \<noteq> None"
    using v s e n by simp_all
  moreover from update_writes_unconditionally
    [of StartDate "str ''edu1''" StartDate "str ''2019-10''" "[sample_education]" initial_EducationForm]
  have "map_of (validationErrors (snd (updateEducation (str ''edu1'') StartDate (str ''2019-10'')
      [sample_education] initial_EducationForm))) (error_key (str ''edu1'') StartDate) = None"
    using v by simp
  moreover from update_writes_unconditionally
    [of Degree "str ''edu1''" Degree "str ''MSc''" "[sample_education]" initial_EducationForm]
  have "validationErrors (snd (updateEducation (str ''edu1'') Degree (str ''MSc'')
      [sample_education] initial_EducationForm)) = []"
    by (simp add: initial_EducationForm_def)
  moreover have d: "education (formData (sample_state (str ''Ada''))) = [sample_education]"
    by (simp add: sample_state_def)
  from update_writes_unconditionally
    [of StartDate "str ''edu1''" StartDate "str ''soon''" "[sample_education]"
      initial_EducationForm _ _ _ "sample_state (str ''Ada'')"]
  have "education_input_change (str ''edu1'') StartDate (JSStr (str ''soon''))
     (sample_state (str ''Ada''), initial_EducationForm) =
     Completed
       (ResumeForm_updateEducation
          (fst (updateEducation (str ''edu1'') StartDate (str ''soon'') [sample_education]
             initial_EducationForm))
          (sample_state (str ''Ada'')),
        snd (updateEducation (str ''edu1'') StartDate (str ''soon'') [sample_education]
          initial_EducationForm))"
    unfolding d by blast
  ultimately show ?thesis using v by (intro conjI)
qed

text \<open>
  C5 as the spec words it fails for the experience section: the invalid start date
  \<open>soon\<close> is written into the sample experience entry and the error state stays empty,
  while the same value in the education section leaves an entry in the error map.
\<close>

theorem updateExperience_records_nothing_counterexample:
  "\<not> validateDate (str ''soon'') \<and>
   map exp_startDate (updateExperience (str ''exp1'') ExpStartDate (str ''soon'')
     [sample_experience]) = [str ''soon''] \<and>
   errors (updateExperiences (updateExperience (str ''exp1'') ExpStartDate (str ''soon'')
     [sample_experience]) (sample_state (str ''Ada''))) = [] \<and>
   map_of (validationErrors (snd (updateEducation (str ''edu1'') StartDate (str ''soon'')
     [sample_education] initial_EducationForm))) (error_key (str ''edu1'') StartDate) =
     Some (str ''Invalid date format (use YYYY-MM or Present)'')"
proof -
  have v: "\<not> validateDate (str ''soon'')"
    by (simp add: validateDate_def str_def)
  have s: "sanitizeString (str ''soon'') = str ''soon''"
    by (simp add: sanitizeString_def str_def trim_def isWhiteSpace_def tag_match_def
        script_match_def lower_ascii_def isWordChar_def)
  have w: "map exp_startDate (updateExperience (str ''exp1'') ExpStartDate (str ''soon'')
     [sample_experience]) = [str ''soon'']"
    by (simp add: updateExperience_def sample_experience_def s)
  have x: "errors (updateExperiences (updateExperience (str ''exp1'') ExpStartDate (str ''soon'')
     [sample_experience]) (sample_state (str ''Ada''))) = []"
    by (simp add: updateExperiences_def sample_state_def)
  have y: "map_of (validationErrors (snd (updateEducation (str ''edu1'') StartDate (str ''soon'')
     [sample_education] initial_EducationForm))) (error_key (str ''edu1'') StartDate) =
     Some (str ''Invalid date format (use YYYY-MM or Present)'')"
    using v by (simp add: updateEducation_def validateField_def Let_def map_of_update_same)
      (simp add: str_def)
  from v w x y show ?thesis by (intro conjI)
qed

subsection \<open>Strict sanitizer\<close>

lemma set_replace_all: "set (replace_all m s) \<subseteq> set s"
proof (induction m s rule: replace_all.induct)
  case (1 m)
  show ?case by simp
next
  case (2 m c cs)
  show ?case
  proof (cases "m (c # cs)")
    case None
    with 2 show ?thesis by auto
  next
    case (Some n)
    show ?thesis
    proof (cases n)
      case 0
      with Some 2 show ?thesis by auto
    next
      case (Suc k)
      with Some 2 have "set (replace_all m (drop k cs)) \<subseteq> set (drop k cs)" by simp
      also have "\<dots> \<subseteq> set cs" by (rule set_drop_subset)
      finally show ?thesis using Some Suc by auto
    qed
  qed
qed

lemma replace_all_id:
  "(\<And>pre suf. s = pre @ suf \<Longrightarrow> m suf = None) \<Longrightarrow> replace_all m s = s"
proof (induction s)
  case Nil
  show ?case by simp
next
  case (Cons c cs)
  have "m (c # cs) = None" using Cons.prems [of "[]" "c # cs"] by simp
  moreover have "replace_all m cs = cs"
  proof (rule Cons.IH)
    fix pre suf assume "cs = pre @ suf"
    then show "m suf = None" using Cons.prems [of "c # pre" suf] by simp
  qed
  ultimately show ?case by simp
qed

lemma no_tag_Nil: "\<not> has_tag []"
  by (simp add: has_tag_def)

lemma has_tag_Cons: "has_tag s \<Longrightarrow> has_tag (c # s)"
  unfolding has_tag_def by (metis append_Cons)

lemma has_tag_append: "has_tag s \<Longrightarrow> has_tag (a @ s @ b)"
proof -
  assume "has_tag s"
  then obtain pre body post where "s = pre @ [60] @ body @ [62] @ post" "body \<noteq> []" "62 \<notin> set body"
    unfolding has_tag_def by blast
  then have "a @ s @ b = (a @ pre) @ [60] @ body @ [62] @ (post @ b)" by simp
  with \<open>body \<noteq> []\<close> \<open>62 \<notin> set body\<close> show ?thesis
    unfolding has_tag_def by blast
qed

lemma has_tag_ConsD:
  assumes "has_tag (c # s)" "\<not> has_tag s"
  shows "c = 60 \<and> (\<exists>body post. s = body @ 62 # post \<and> body \<noteq> [] \<and> 62 \<notin> set body)"
proof -
  from assms(1) obtain pre body post where
    eq: "c # s = pre @ [60] @ body @ [62] @ post" and b: "body \<noteq> []" "62 \<notin> set body"
    unfolding has_tag_def by blast
  show ?thesis
  proof (cases pre)
    case Nil
    with eq b show ?thesis by auto
  next
    case (Cons p ps)
    with eq have "s = ps @ [60] @ body @ [62] @ post" by simp
    with b have "has_tag s" unfolding has_tag_def by blast
    with assms(2) show ?thesis by simp
  qed
qed

lemma tag_match_has_tag: "tag_match s = Some n \<Longrightarrow> has_tag s"
proof -
  assume m: "tag_match s = Some n"
  then obtain cs where s: "s = 60 # cs"
    by (auto simp: tag_match_def split: list.splits if_splits)
  let ?body = "takeWhile (\<lambda>x. x \<noteq> 62) cs"
  let ?rest = "dropWhile (\<lambda>x. x \<noteq> 62) cs"
  from m s have b: "?body \<noteq> []" "length ?body < length cs"
    by (auto simp: tag_match_def Let_def split: if_splits)
  then have "?rest \<noteq> []"
    by (metis append_Nil2 takeWhile_dropWhile_id less_irrefl)
  then obtain post where r: "?rest = 62 # post"
    by (metis (mono_tags, lifting) hd_dropWhile list.collapse)
  have "cs = ?body @ ?rest" by simp
  with r s have "s = [] @ [60] @ ?body @ [62] @ post" by simp
  moreover have "62 \<notin> set ?body" by (auto dest: set_takeWhileD)
  ultimately show ?thesis using b(1) unfolding has_tag_def by blast
qed

lemma length_takeWhile_mem:
  "x \<in> set cs \<Longrightarrow> \<not> P x \<Longrightarrow> length (takeWhile P cs) < length cs"
  by (induction cs) auto

lemma no_tag_replace_all: "\<not> has_tag (replace_all tag_match s)"
proof (induction "tag_match" s rule: replace_all.induct)
  case 1
  show ?case by (simp add: no_tag_Nil)
next
  case (2 c cs)
  show ?case
  proof (cases "tag_match (c # cs)")
    case None
    with 2 have ih: "\<not> has_tag (replace_all tag_match cs)" by simp
    show ?thesis
    proof
      assume "has_tag (replace_all tag_match (c # cs))"
      with None have "has_tag (c # replace_all tag_match cs)" by simp
      from has_tag_ConsD [OF this ih] obtain body post where
        c: "c = 60" and r: "replace_all tag_match cs = body @ 62 # post"
        and b: "body \<noteq> []" "62 \<notin> set body" by blast
      from r have "62 \<in> set (replace_all tag_match cs)" by simp
      with set_replace_all have in_cs: "62 \<in> set cs" by blast
      then obtain x xs where cs: "cs = x # xs" by (cases cs) auto
      show False
      proof (cases "x = 62")
        case True
        with cs have "replace_all tag_match cs = 62 # replace_all tag_match xs"
          by (simp add: tag_match_def)
        with r b show False by (cases body) auto
      next
        case False
        with cs have "takeWhile (\<lambda>x. x \<noteq> 62) cs \<noteq> []" by simp
        moreover from in_cs have "length (takeWhile (\<lambda>x. x \<noteq> 62) cs) < length cs"
          by (rule length_takeWhile_mem) simp
        ultimately show False using None c by (simp add: tag_match_def cs)
      qed
    qed
  next
    case (Some n)
    show ?thesis
    proof (cases n)
      case 0
      with Some show ?thesis by (auto simp: tag_match_def Let_def split: list.splits if_splits)
    next
      case (Suc k)
      with Some 2 show ?thesis by simp
    qed
  qed
qed

lemma ci_prefix_Cons:
  "ci_prefix (p # ps) s \<longleftrightarrow> (\<exists>c cs. s = c # cs \<and> lower_ascii c = p \<and> ci_prefix ps cs)"
  by (cases s) auto

lemma lower_ascii_60: "lower_ascii c = 60 \<Longrightarrow> c = 60"
  by (auto simp: lower_ascii_def split: if_splits)

lemma lower_ascii_62: "lower_ascii c = 62 \<longleftrightarrow> c = 62"
  by (auto simp: lower_ascii_def split: if_splits)

lemma ci_prefix_close:
  assumes "ci_prefix (str ''</script>'') s"
  shows "has_tag s"
proof -
  from assms obtain a b c d e f g h i r where s: "s = a # b # c # d # e # f # g # h # i # r"
    and l: "lower_ascii a = 60" "lower_ascii b = 47" "lower_ascii c = 115" "lower_ascii d = 99"
      "lower_ascii e = 114" "lower_ascii f = 105" "lower_ascii g = 112" "lower_ascii h = 116"
      "lower_ascii i = 62"
    unfolding str_def by (auto simp: ci_prefix_Cons)
  from l have "a = 60" "i = 62"
    by (simp_all add: lower_ascii_60 lower_ascii_62)
  moreover from l have "b \<noteq> 62" "c \<noteq> 62" "d \<noteq> 62" "e \<noteq> 62" "f \<noteq> 62" "g \<noteq> 62" "h \<noteq> 62"
    by (auto simp: lower_ascii_def)
  then have "62 \<notin> set [b, c, d, e, f, g, h]"
    by simp
  ultimately have "s = [] @ [60] @ [b, c, d, e, f, g, h] @ [62] @ r \<and> [b, c, d, e, f, g, h] \<noteq> [] \<and>
      62 \<notin> set [b, c, d, e, f, g, h]"
    using s by simp
  then show ?thesis
    unfolding has_tag_def by blast
qed

lemma find_close_has_tag: "find_close s = Some n \<Longrightarrow> has_tag s"
proof (induction s arbitrary: n)
  case Nil
  then show ?case by simp
next
  case (Cons c cs)
  show ?case
  proof (cases "ci_prefix (str ''</script>'') (c # cs)")
    case True
    then show ?thesis by (rule ci_prefix_close)
  next
    case False
    with Cons.prems obtain k where "find_close cs = Some k" by auto
    then have "has_tag cs" by (rule Cons.IH)
    then show ?thesis by (rule has_tag_Cons)
  qed
qed

lemma script_match_has_tag: "script_match s = Some n \<Longrightarrow> has_tag s"
proof -
  assume "script_match s = Some n"
  then obtain k where "find_close (drop 7 s) = Some k"
    by (auto simp: script_match_def split: if_splits)
  then have "has_tag (drop 7 s)" by (rule find_close_has_tag)
  then have "has_tag (take 7 s @ drop 7 s @ [])" by (rule has_tag_append)
  then show ?thesis by simp
qed

lemma has_script_block_has_tag: "has_script_block s \<Longrightarrow> has_tag s"
proof -
  assume "has_script_block s"
  then obtain pre suf n where "s = pre @ suf" "script_match suf = Some n"
    unfolding has_script_block_def by auto
  then show ?thesis
    using has_tag_append [of suf pre "[]"] script_match_has_tag by simp
qed

lemma replace_all_tag_id: "\<not> has_tag s \<Longrightarrow> replace_all tag_match s = s"
proof (rule replace_all_id)
  fix pre suf assume nt: "\<not> has_tag s" and s: "s = pre @ suf"
  show "tag_match suf = None"
  proof (rule ccontr)
    assume "tag_match suf \<noteq> None"
    then obtain n where "tag_match suf = Some n" by auto
    then have "has_tag suf" by (rule tag_match_has_tag)
    then have "has_tag (pre @ suf @ [])" by (rule has_tag_append)
    with nt s show False by simp
  qed
qed

lemma replace_all_script_id: "\<not> has_tag s \<Longrightarrow> replace_all script_match s = s"
proof (rule replace_all_id)
  fix pre suf assume nt: "\<not> has_tag s" and s: "s = pre @ suf"
  show "script_match suf = None"
  proof (rule ccontr)
    assume "script_match suf \<noteq> None"
    with s have "has_script_block s" unfolding has_script_block_def by blast
    with nt show False using has_script_block_has_tag by blast
  qed
qed

lemma trim_infix: "\<exists>a b. s = a @ trim s @ b"
proof -
  let ?u = "dropWhile isWhiteSpace s"
  have "rev ?u = takeWhile isWhiteSpace (rev ?u) @ dropWhile isWhiteSpace (rev ?u)" by simp
  then have "?u = trim s @ rev (takeWhile isWhiteSpace (rev ?u))"
    unfolding trim_def by (metis rev_append rev_rev_ident)
  moreover have "s = takeWhile isWhiteSpace s @ ?u" by simp
  ultimately show ?thesis by metis
qed

lemma no_tag_trim: "\<not> has_tag s \<Longrightarrow> \<not> has_tag (trim s)"
  using trim_infix [of s] has_tag_append by metis

lemma dropWhile_trim: "dropWhile isWhiteSpace (trim s) = trim s"
proof (cases "trim s")
  case Nil
  then show ?thesis by simp
next
  case (Cons x xs)
  let ?u = "dropWhile isWhiteSpace s"
  have "?u = trim s @ rev (takeWhile isWhiteSpace (rev ?u))"
    unfolding trim_def by (metis rev_append rev_rev_ident takeWhile_dropWhile_id)
  with Cons have "hd ?u = x" "?u \<noteq> []"
    by (metis append_Cons list.sel(1), metis append_Cons list.distinct(1))
  then have "\<not> isWhiteSpace x" using hd_dropWhile by metis
  with Cons show ?thesis by simp
qed

lemma trim_idem: "trim (trim s) = trim s"
proof -
  have "trim (trim s) = rev (dropWhile isWhiteSpace (rev (trim s)))"
    unfolding trim_def [of "trim s"] by (simp only: dropWhile_trim)
  also have "\<dots> = rev (dropWhile isWhiteSpace (dropWhile isWhiteSpace (rev (dropWhile isWhiteSpace s))))"
    by (simp add: trim_def)
  also have "\<dots> = trim s"
    by (simp add: trim_def)
  finally show ?thesis .
qed

lemma no_tag_sanitizeString: "\<not> has_tag (sanitizeString s)"
  by (simp add: sanitizeString_def no_tag_trim no_tag_replace_all no_tag_Nil)

text \<open>
  C6. The strict sanitizer is idempotent, and its output holds no script block (no place
  where the script expression matches) and no complete tag (no \<open><\<close>, one or more code
  units other than \<open>>\<close>, \<open>>\<close>).
\<close>

theorem sanitizeString_idempotent_no_markup:
  "sanitizeString (sanitizeString s) = sanitizeString s \<and>
   \<not> has_script_block (sanitizeString s) \<and> \<not> has_tag (sanitizeString s)"
proof -
  let ?t = "sanitizeString s"
  have nt: "\<not> has_tag ?t" by (rule no_tag_sanitizeString)
  have "sanitizeString ?t = ?t"
  proof (cases "?t = []")
    case True
    then show ?thesis by (simp add: sanitizeString_def)
  next
    case False
    then have "?t = trim (replace_all tag_match (replace_all script_match s))"
      by (simp add: sanitizeString_def split: if_splits)
    then have "trim ?t = ?t" by (metis trim_idem)
    with nt show ?thesis
      by (simp add: sanitizeString_def [of ?t] replace_all_script_id replace_all_tag_id)
  qed
  with nt show ?thesis using has_script_block_has_tag by blast
qed

text \<open>The sanitizer at a concrete input: a script block, two tags and outer white space go.\<close>

theorem sanitizeString_idempotent_witness:
  "sanitizeString (str '' <b>hi</b><script>x</script> '') = str ''hi'' \<and>
   sanitizeString (sanitizeString (str '' <b>hi</b><script>x</script> '')) = str ''hi''"
proof -
  have "sanitizeString (str '' <b>hi</b><script>x</script> '') = str ''hi''"
    by (simp add: sanitizeString_def str_def trim_def isWhiteSpace_def tag_match_def
        script_match_def lower_ascii_def isWordChar_def)
  then show ?thesis
    using sanitizeString_idempotent_no_markup [of "str '' <b>hi</b><script>x</script> ''"] by simp
qed

subsection \<open>Education entries and their identifiers\<close>

declare digits_of.simps [simp del]

lemma digits_value_snoc: "digits_value (ds @ [d]) = 10 * digits_value ds + (d - 48)"
  by (simp add: digits_value_def)

lemma digits_value_digits_of: "digits_value (digits_of n) = n"
proof (induction n rule: digits_of.induct)
  case (1 n)
  show ?case
  proof (cases "n < 10")
    case True
    then show ?thesis
      by (simp add: digits_of.simps [of n] digits_value_def)
  next
    case False
    with 1 have "digits_value (digits_of (n div 10)) = n div 10" by simp
    with False show ?thesis
      by (simp add: digits_of.simps [of n] digits_value_snoc)
  qed
qed

lemma digits_of_inj: "digits_of m = digits_of n \<Longrightarrow> m = n"
  by (metis digits_value_digits_of)

lemma hd_digits_of: "digits_of n \<noteq> [] \<and> 48 \<le> hd (digits_of n)"
proof (induction n rule: digits_of.induct)
  case (1 n)
  show ?case
  proof (cases "n < 10")
    case True
    then show ?thesis by (simp add: digits_of.simps [of n])
  next
    case False
    with 1 have "digits_of (n div 10) \<noteq> [] \<and> 48 \<le> hd (digits_of (n div 10))" by simp
    with False show ?thesis by (simp add: digits_of.simps [of n])
  qed
qed

lemma int_toString_inj: "int_toString i = int_toString j \<Longrightarrow> i = j"
proof -
  assume eq: "int_toString i = int_toString j"
  have sign: "45 # digits_of a \<noteq> digits_of b" for a b
    using hd_digits_of [of b] by (cases "digits_of b") auto
  show ?thesis
  proof (cases "i < 0")
    case True
    show ?thesis
    proof (cases "j < 0")
      case True
      with \<open>i < 0\<close> eq have "nat (- i) = nat (- j)"
        by (simp add: int_toString_def digits_of_inj)
      with True \<open>i < 0\<close> show ?thesis by simp
    next
      case False
      with \<open>i < 0\<close> eq sign show ?thesis by (simp add: int_toString_def)
    qed
  next
    case False
    show ?thesis
    proof (cases "j < 0")
      case True
      with \<open>\<not> i < 0\<close> eq sign [of "nat (- j)" "nat i"] show ?thesis
        by (simp add: int_toString_def)
    next
      case False
      with \<open>\<not> i < 0\<close> eq have "nat i = nat j"
        by (simp add: int_toString_def digits_of_inj)
      with False \<open>\<not> i < 0\<close> show ?thesis by simp
    qed
  qed
qed

lemma edu_id_newEdu_eq: "edu_id (newEdu a) = edu_id (newEdu b) \<longleftrightarrow> a = b"
  by (auto simp: newEdu_def dest: int_toString_inj)

lemma filter_neq_id: "filter (\<lambda>x. f x \<noteq> i) xs = xs \<longleftrightarrow> i \<notin> set (map f xs)"
proof -
  have "filter (\<lambda>x. f x \<noteq> i) xs = xs \<longleftrightarrow> (\<forall>x\<in>set xs. f x \<noteq> i)"
    by (simp add: filter_id_conv)
  also have "\<dots> \<longleftrightarrow> i \<notin> set (map f xs)"
    by force
  finally show ?thesis .
qed

lemma disjoint_maps:
  "\<forall>n\<in>set ys. g n \<notin> set (map f xs) \<Longrightarrow> set (map f xs) \<inter> set (map g ys) = {}"
  by force

lemma add_delete_roundtrip:
  "deleteEducation (edu_id (newEdu now)) (fst (addEducation now data st)) = data \<longleftrightarrow>
     edu_id (newEdu now) \<notin> set (map edu_id data)"
proof -
  have "deleteEducation (edu_id (newEdu now)) (fst (addEducation now data st)) =
      filter (\<lambda>edu. edu_id edu \<noteq> edu_id (newEdu now)) data"
    by (simp add: deleteEducation_def addEducation_def)
  then show ?thesis
    by (simp only: filter_neq_id)
qed

lemma fold_addEducation:
  "fst (fold (\<lambda>n (d, s). addEducation n d s) nows (data, st)) = data @ map newEdu nows"
  by (induction nows arbitrary: data st) (simp_all add: addEducation_def)

lemma distinct_after_adds:
  assumes "distinct nows" "distinct (map edu_id data)"
    and "\<forall>n\<in>set nows. edu_id (newEdu n) \<notin> set (map edu_id data)"
  shows "distinct (map edu_id (fst (fold (\<lambda>n (d, s). addEducation n d s) nows (data, st))))"
proof -
  have "inj_on (\<lambda>n. edu_id (newEdu n)) (set nows)"
    by (rule inj_onI) (simp add: edu_id_newEdu_eq)
  with assms(1) have "distinct (map (\<lambda>n. edu_id (newEdu n)) nows)"
    by (simp add: distinct_map)
  moreover from assms(3) have "set (map edu_id data) \<inter> set (map (\<lambda>n. edu_id (newEdu n)) nows) = {}"
    by (rule disjoint_maps)
  ultimately show ?thesis
    using assms(2) by (simp add: fold_addEducation comp_def)
qed

text \<open>
  \<open>addEducation\<close> appends an entry with empty fields whose id is \<open>edu\<close> followed by
  the clock reading. Adding and then removing by that id gives the list back exactly when
  no entry of the list has that id already. Two clock readings give the same id only
  when they are equal, so after any sequence of adds the ids are pairwise distinct,
  provided the clock readings are pairwise distinct and the ids were distinct, and
  different from the new ones, before.
\<close>

theorem addEducation_deleteEducation:
  "fst (addEducation now data st) = data @ [newEdu now] \<and>
   (deleteEducation (edu_id (newEdu now)) (fst (addEducation now data st)) = data \<longleftrightarrow>
      edu_id (newEdu now) \<notin> set (map edu_id data)) \<and>
   (edu_id (newEdu now) = edu_id (newEdu now') \<longleftrightarrow> now = now') \<and>
   (distinct nows \<and> distinct (map edu_id data) \<and>
      (\<forall>n\<in>set nows. edu_id (newEdu n) \<notin> set (map edu_id data)) \<longrightarrow>
    distinct (map edu_id (fst (fold (\<lambda>n (d, s). addEducation n d s) nows (data, st)))))"
  using add_delete_roundtrip [of now data st] edu_id_newEdu_eq [of now now']
    distinct_after_adds [of nows data st]
  by (simp add: addEducation_def)

text \<open>
  Two adds at consecutive clock readings on the sample list, and the removal of the
  first new entry from the list that the first add gave.
\<close>

theorem addEducation_deleteEducation_example:
  "edu_id (newEdu 1730000000000) = str ''edu1730000000000'' \<and>
   edu_id (newEdu 1730000000000) \<notin> set (map edu_id [sample_education]) \<and>
   deleteEducation (edu_id (newEdu 1730000000000))
     (fst (addEducation 1730000000000 [sample_education] initial_EducationForm)) =
     [sample_education] \<and>
   distinct (map edu_id (fst (fold (\<lambda>n (d, s). addEducation n d s)
     [1730000000000, 1730000000001] ([sample_education], initial_EducationForm))))"
proof -
  have i: "edu_id (newEdu 1730000000000) = str ''edu1730000000000''"
    "edu_id (newEdu 1730000000001) = str ''edu1730000000001''"
    by (simp_all add: newEdu_def int_toString_def digits_of.simps str_def)
  have s: "map edu_id [sample_education] = [str ''edu1'']"
    by (simp add: sample_education_def)
  have n: "edu_id (newEdu 1730000000000) \<notin> set (map edu_id [sample_education])"
    "edu_id (newEdu 1730000000001) \<notin> set (map edu_id [sample_education])"
    unfolding i s by (simp_all add: str_def)
  have h: "distinct [1730000000000, 1730000000001 :: int] \<and>
      distinct (map edu_id [sample_education]) \<and>
      (\<forall>n\<in>set [1730000000000, 1730000000001].
         edu_id (newEdu n) \<notin> set (map edu_id [sample_education]))"
    using n by simp
  from addEducation_deleteEducation
    [of 1730000000000 "[sample_education]" initial_EducationForm 1730000000000
      "[1730000000000, 1730000000001]"] n(1) h
  have "deleteEducation (edu_id (newEdu 1730000000000))
     (fst (addEducation 1730000000000 [sample_education] initial_EducationForm)) =
     [sample_education]"
    and "distinct (map edu_id (fst (fold (\<lambda>n (d, s). addEducation n d s)
     [1730000000000, 1730000000001] ([sample_education], initial_EducationForm))))"
    by blast+
  with i(1) n(1) show ?thesis by (intro conjI)
qed

text \<open>
  C7. The id that \<open>addEducation\<close> assigns is not fresh when the clock gives the same
  reading twice: the second add repeats the id of the first, the ids of the list are no
  longer distinct, and removing by that id does not give back the list of one entry that
  the second add started from, but the empty list.
\<close>

theorem addEducation_same_reading:
  "fst (addEducation 1730000000000 [] initial_EducationForm) = [newEdu 1730000000000] \<and>
   deleteEducation (edu_id (newEdu 1730000000000))
     (fst (addEducation 1730000000000 [newEdu 1730000000000] initial_EducationForm)) = [] \<and>
   \<not> distinct (map edu_id
     (fst (addEducation 1730000000000 [newEdu 1730000000000] initial_EducationForm)))"
  by (simp add: addEducation_def deleteEducation_def)

subsection \<open>Rounding to a Number\<close>

lemma round_half_even_cases:
  "round_half_even x = \<lfloor>x\<rfloor> \<or> round_half_even x = \<lfloor>x\<rfloor> + 1"
  by (simp add: round_half_even_def Let_def)

lemma round_half_even_of_int: "round_half_even (of_int k) = k"
  by (simp add: round_half_even_def)

lemma round_half_even_mono:
  assumes "x \<le> y"
  shows "round_half_even x \<le> round_half_even y"
proof (cases "\<lfloor>x\<rfloor> = \<lfloor>y\<rfloor>")
  case True
  with assms have "x - of_int \<lfloor>x\<rfloor> \<le> y - of_int \<lfloor>y\<rfloor>"
    by simp
  with True show ?thesis
    by (auto simp: round_half_even_def Let_def)
next
  case False
  with assms have "\<lfloor>x\<rfloor> + 1 \<le> \<lfloor>y\<rfloor>"
    using floor_mono [of x y] by linarith
  moreover have "round_half_even x \<le> \<lfloor>x\<rfloor> + 1"
    using round_half_even_cases [of x] by linarith
  moreover have "\<lfloor>y\<rfloor> \<le> round_half_even y"
    using round_half_even_cases [of y] by linarith
  ultimately show ?thesis by linarith
qed

lemma round_half_even_le: "x \<le> of_int k \<Longrightarrow> round_half_even x \<le> k"
  using round_half_even_mono [of x "of_int k"] by (simp add: round_half_even_of_int)

lemma round_half_even_ge: "of_int k \<le> x \<Longrightarrow> k \<le> round_half_even x"
  using round_half_even_mono [of "of_int k" x] by (simp add: round_half_even_of_int)

text \<open>
  Rounding to \<open>Suc m\<close> significant bits is monotone: \<open>w\<close> is the value in units of the
  least quantum, and \<open>floorlog 2 (nat \<lfloor>w\<rfloor>) - Suc m\<close> the exponent of its own quantum.
\<close>

lemma scaled_mono:
  assumes w: "0 \<le> wa" "wa \<le> wb"
    and sa: "sa = floorlog 2 (nat \<lfloor>wa\<rfloor>) - Suc m"
    and sb: "sb = floorlog 2 (nat \<lfloor>wb\<rfloor>) - Suc m"
  shows "round_half_even (wa / 2 ^ sa) * 2 ^ sa \<le> round_half_even (wb / 2 ^ sb) * 2 ^ sb"
proof -
  define ka kb where "ka = nat \<lfloor>wa\<rfloor>" and "kb = nat \<lfloor>wb\<rfloor>"
  from w have "ka \<le> kb"
    unfolding ka_def kb_def by (intro nat_mono floor_mono)
  then have "floorlog 2 ka \<le> floorlog 2 kb"
    by (rule floorlog_mono)
  then have s: "sa \<le> sb"
    by (simp add: sa sb ka_def kb_def)
  show ?thesis
  proof (cases "sa = sb")
    case True
    from w have "wa / 2 ^ sb \<le> wb / 2 ^ sb"
      by (simp add: divide_right_mono)
    then have "round_half_even (wa / 2 ^ sb) \<le> round_half_even (wb / 2 ^ sb)"
      by (rule round_half_even_mono)
    with True show ?thesis by simp
  next
    case False
    with s have lt: "Suc sa \<le> sb" by simp
    then have bb: "floorlog 2 kb = sb + Suc m"
      by (simp add: sb kb_def)
    then have kb: "0 < kb"
      using floorlog_eq_zero_iff [of 2 kb] by (intro Nat.gr0I) simp
    \<comment> \<open>the smaller value rounds to at most \<open>2 ^ (Suc m + sa)\<close>\<close>
    have "ka < 2 ^ floorlog 2 ka"
      by (cases "ka = 0") (simp_all add: floorlog_bounds)
    also have "(2::nat) ^ floorlog 2 ka \<le> 2 ^ (sa + Suc m)"
      by (rule power_increasing) (simp_all add: sa ka_def)
    finally have "int ka < 2 ^ (sa + Suc m)"
      by (metis of_nat_less_iff of_nat_numeral of_nat_power)
    with w(1) have "\<lfloor>wa\<rfloor> < 2 ^ (sa + Suc m)"
      by (simp add: ka_def)
    then have "wa < of_int (2 ^ (sa + Suc m))"
      by (simp only: floor_less_iff)
    then have "wa / 2 ^ sa \<le> of_int (2 ^ Suc m)"
      by (simp add: power_add field_simps)
    then have "round_half_even (wa / 2 ^ sa) \<le> 2 ^ Suc m"
      by (rule round_half_even_le)
    then have "round_half_even (wa / 2 ^ sa) * 2 ^ sa \<le> 2 ^ Suc m * 2 ^ sa"
      by (simp add: mult_right_mono)
    also have "\<dots> = (2::int) ^ (m + Suc sa)"
      by (simp add: power_add)
    also from lt have "\<dots> \<le> 2 ^ (m + sb)"
      by (intro power_increasing) simp_all
    \<comment> \<open>the larger value rounds to at least \<open>2 ^ (m + sb)\<close>\<close>
    also have "(2::int) ^ (m + sb) \<le> round_half_even (wb / 2 ^ sb) * 2 ^ sb"
    proof -
      from bb kb have "2 ^ (sb + m) \<le> kb"
        using floorlog_bounds [of kb 2] by simp
      then have "(2::int) ^ (sb + m) \<le> int kb"
        by (metis of_nat_le_iff of_nat_numeral of_nat_power)
      also from w have "int kb = \<lfloor>wb\<rfloor>"
        by (simp add: kb_def)
      finally have "of_int (2 ^ (sb + m)) \<le> wb"
        by (simp only: le_floor_iff)
      then have "of_int (2 ^ m) \<le> wb / 2 ^ sb"
        by (simp add: power_add field_simps)
      then have "2 ^ m \<le> round_half_even (wb / 2 ^ sb)"
        by (rule round_half_even_ge)
      then have "2 ^ m * 2 ^ sb \<le> round_half_even (wb / 2 ^ sb) * 2 ^ sb"
        by (simp add: mult_right_mono)
      then show ?thesis
        by (simp add: power_add)
    qed
    finally show ?thesis .
  qed
qed

lemma number_value_mono:
  assumes "0 \<le> a" "a \<le> b"
  shows "\<not> number_gt (number_value a) (number_value b)"
proof -
  define D :: rat where "D = 2 ^ 1074"
  define T :: int where "T = 2 ^ 2098"
  define n where "n v = round_half_even (v * D / 2 ^ (floorlog 2 (nat \<lfloor>v * D\<rfloor>) - 53)) *
           2 ^ (floorlog 2 (nat \<lfloor>v * D\<rfloor>) - 53)" for v
  have D: "0 < D" by (simp add: D_def)
  have v: "number_value v = (if T \<le> n v then Infinity else Finite (of_int (n v) / D))" for v
    by (simp add: number_value_def Let_def D_def T_def n_def)
  from assms D have w: "0 \<le> a * D" "a * D \<le> b * D"
    by simp_all
  have n: "n a \<le> n b"
    unfolding n_def by (rule scaled_mono [OF w, where m = 52]) simp_all
  show ?thesis
  proof (cases "T \<le> n b")
    case True
    then show ?thesis by (simp add: v)
  next
    case False
    with n have "\<not> T \<le> n a" by linarith
    moreover from n D have "rat_of_int (n a) / D \<le> rat_of_int (n b) / D"
      by (simp add: divide_right_mono)
    ultimately show ?thesis using False
      by (simp add: v)
  qed
qed

lemma floor_rat_numeral: "\<lfloor>(numeral a :: rat) / numeral b\<rfloor> = numeral a div numeral b"
  using floor_divide_of_int_eq [of "numeral a" "numeral b", where ?'a = rat] by simp

lemma floorlog_eqI: "0 < b \<Longrightarrow> 2 ^ (b - 1) \<le> x \<Longrightarrow> x < 2 ^ b \<Longrightarrow> floorlog 2 x = b"
  by (metis One_nat_def Suc_1 floorlog_geI floorlog_leI lessI order_antisym zero_le)

lemma number_value_core:
  assumes x: "2 ^ 52 \<le> x" "x < 2 ^ 53" and w: "v * 2 ^ 1074 = x * 2 ^ s" and s: "s \<le> 2044"
  shows "number_value v = Finite (of_int (round_half_even x * 2 ^ s) / 2 ^ 1074)"
proof -
  define T :: int where "T = 2 ^ 2098"
  define D :: rat where "D = 2 ^ 1074"
  define k where "k = nat \<lfloor>x * 2 ^ s\<rfloor>"
  from x(1) have "of_int (2 ^ (52 + s)) \<le> x * 2 ^ s"
    by (simp add: power_add mult_right_mono)
  then have lo: "2 ^ (52 + s) \<le> \<lfloor>x * 2 ^ s\<rfloor>"
    by (simp only: le_floor_iff)
  from x(2) have "x * 2 ^ s < of_int (2 ^ (53 + s))"
    by (simp add: power_add mult_strict_right_mono)
  then have hi: "\<lfloor>x * 2 ^ s\<rfloor> < 2 ^ (53 + s)"
    by (simp only: floor_less_iff)
  have "(0::int) \<le> 2 ^ (52 + s)"
    by simp
  with lo have "0 \<le> \<lfloor>x * 2 ^ s\<rfloor>"
    by linarith
  then have k: "int k = \<lfloor>x * 2 ^ s\<rfloor>"
    by (simp add: k_def)
  with lo have "int (2 ^ (52 + s)) \<le> int k"
    by simp
  then have klo: "2 ^ (52 + s) \<le> k"
    by (simp only: of_nat_le_iff)
  from k hi have "int k < int (2 ^ (53 + s))"
    by simp
  then have khi: "k < 2 ^ (53 + s)"
    by (simp only: of_nat_less_iff)
  from klo khi have "floorlog 2 k = 53 + s"
    by (intro floorlog_eqI) simp_all
  moreover from w have vD: "v * D = x * 2 ^ s"
    by (simp only: D_def)
  ultimately have e: "floorlog 2 (nat \<lfloor>v * D\<rfloor>) - 53 = s"
    by (simp add: k_def)
  from x(2) have "round_half_even x \<le> 2 ^ 53"
    by (intro round_half_even_le) simp
  then have "round_half_even x * 2 ^ s \<le> 2 ^ 53 * 2 ^ s"
    by (simp add: mult_right_mono)
  also have "\<dots> = (2::int) ^ (53 + s)"
    by (simp add: power_add)
  also from s have "\<dots> \<le> 2 ^ 2097"
    by (intro power_increasing) simp_all
  also have "\<dots> < T"
    unfolding T_def by (rule power_strict_increasing) simp_all
  finally have n: "\<not> T \<le> round_half_even x * 2 ^ s"
    by simp
  define n' where "n' = round_half_even (v * D / 2 ^ (floorlog 2 (nat \<lfloor>v * D\<rfloor>) - 53)) *
      2 ^ (floorlog 2 (nat \<lfloor>v * D\<rfloor>) - 53)"
  have nv: "number_value v = (if T \<le> n' then Infinity else Finite (of_int n' / D))"
    by (simp add: number_value_def Let_def D_def T_def n'_def)
  have "n' = round_half_even x * 2 ^ s"
    unfolding n'_def e by (simp add: vD)
  with n nv have "number_value v = Finite (of_int (round_half_even x * 2 ^ s) / D)"
    by simp
  then show ?thesis
    by (simp only: D_def)
qed

lemma number_value_below_2_63:
  assumes "2 ^ 52 \<le> v * 2 ^ t" "v * 2 ^ t < 2 ^ 53" "t \<le> 1074"
  shows "number_value v = Finite (of_int (round_half_even (v * 2 ^ t)) / 2 ^ t)"
proof -
  from assms(3) have "(2::rat) ^ 1074 = 2 ^ t * 2 ^ (1074 - t)"
    by (simp add: power_add [symmetric])
  then have p: "v * 2 ^ 1074 = v * 2 ^ t * 2 ^ (1074 - t)"
    by simp
  have "number_value v =
      Finite (of_int (round_half_even (v * 2 ^ t) * 2 ^ (1074 - t)) / (2 ^ t * 2 ^ (1074 - t)))"
    using number_value_core [OF assms(1,2) p] \<open>(2::rat) ^ 1074 = 2 ^ t * 2 ^ (1074 - t)\<close>
    by simp
  then show ?thesis
    by simp
qed

lemma number_value_above_2_52:
  assumes "2 ^ 52 \<le> v / 2 ^ u" "v / 2 ^ u < 2 ^ 53" "u \<le> 970"
  shows "number_value v = Finite (of_int (round_half_even (v / 2 ^ u) * 2 ^ u))"
proof -
  have p: "v * 2 ^ 1074 = v / 2 ^ u * 2 ^ (1074 + u)"
    by (simp add: power_add)
  from assms(3) have "1074 + u \<le> 2044"
    by simp
  from number_value_core [OF assms(1,2) p this] show ?thesis
    by (simp add: power_add)
qed

subsection \<open>GPA validation\<close>

lemma decimal_value_nonneg: "0 \<le> decimal_value s"
  by (simp add: decimal_value_def Let_def)

lemma white_space_other:
  "isWhiteSpace c \<Longrightarrow> \<not> isDigit c \<and> c \<noteq> 46 \<and> c \<noteq> 47"
  by (auto simp: isWhiteSpace_def isDigit_def)

lemma decimal_shape_chars:
  assumes "decimal_shape e"
  shows "\<forall>c\<in>set e. isDigit c \<or> c = 46"
proof -
  have "\<forall>c\<in>set (dropWhile isDigit e). isDigit c \<or> c = 46"
  proof (cases "dropWhile isDigit e")
    case Nil
    then show ?thesis by (simp only: list.set ball_empty)
  next
    case (Cons c t)
    with assms have "c = 46" "dropWhile isDigit t = []"
      by (simp_all add: decimal_shape_def)
    with Cons show ?thesis
      by (auto simp: dropWhile_eq_Nil_conv)
  qed
  moreover have "\<forall>c\<in>set (takeWhile isDigit e). isDigit c"
    by (auto dest: set_takeWhileD)
  moreover have "set e = set (takeWhile isDigit e) \<union> set (dropWhile isDigit e)"
    by (metis set_append takeWhile_dropWhile_id)
  ultimately show ?thesis by blast
qed

lemma decimal_shape_hd:
  assumes "decimal_shape t"
  shows "\<exists>d r. t = d # r \<and> isDigit d"
proof (cases t)
  case Nil
  with assms show ?thesis by (simp add: decimal_shape_def)
next
  case (Cons d r)
  with assms show ?thesis by (cases "isDigit d") (simp_all add: decimal_shape_def)
qed

lemma takeWhile_prefix:
  assumes "\<forall>x\<in>set xs. P x" "ys = [] \<or> \<not> P (hd ys)"
  shows "takeWhile P (xs @ ys) = xs" "dropWhile P (xs @ ys) = ys"
  using assms by (cases ys; simp add: takeWhile_append2 dropWhile_append2)+

lemma gpa_form_match:
  assumes "gpa_form v earned total'"
  shows "gpa_match v = Some (earned, total')"
proof -
  let ?D = "\<lambda>c. isDigit c \<or> c = 46"
  from assms obtain ws1 ws2 where v: "v = earned @ ws1 @ 47 # ws2 @ total'"
    and ws: "\<forall>c\<in>set ws1. isWhiteSpace c" "\<forall>c\<in>set ws2. isWhiteSpace c"
    and sh: "decimal_shape earned" "decimal_shape total'"
    unfolding gpa_form_def by (auto simp: dropWhile_eq_Nil_conv)
  from sh(2) obtain d r where t: "total' = d # r" "isDigit d"
    using decimal_shape_hd by blast
  then have nd: "\<not> isWhiteSpace d"
    using white_space_other by blast
  have "\<not> ?D (hd (ws1 @ 47 # ws2 @ total'))"
    using ws(1) white_space_other by (cases ws1) (auto simp: isDigit_def)
  then have "ws1 @ 47 # ws2 @ total' = [] \<or> \<not> ?D (hd (ws1 @ 47 # ws2 @ total'))"
    by (rule disjI2)
  note takeWhile_prefix [where P = ?D, OF decimal_shape_chars [OF sh(1)] this]
  then have 1: "takeWhile ?D v = earned" "dropWhile ?D v = ws1 @ 47 # ws2 @ total'"
    unfolding v by blast+
  from ws(1) have 2: "dropWhile isWhiteSpace (ws1 @ 47 # ws2 @ total') = 47 # ws2 @ total'"
    by (simp add: dropWhile_append2 isWhiteSpace_def)
  from ws(2) nd have 3: "dropWhile isWhiteSpace (ws2 @ total') = total'"
    by (simp add: dropWhile_append2 t)
  from sh show ?thesis
    by (simp add: gpa_match_def Let_def 1 2 3)
qed

lemma gpa_match_form:
  assumes "gpa_match v = Some (earned, total')"
  shows "gpa_form v earned total'"
proof -
  let ?D = "\<lambda>c. isDigit c \<or> c = 46"
  let ?r0 = "dropWhile ?D v"
  from assms obtain r where r: "dropWhile isWhiteSpace ?r0 = 47 # r"
    and e: "earned = takeWhile ?D v" and t: "total' = dropWhile isWhiteSpace r"
    and sh: "decimal_shape earned" "decimal_shape total'"
    by (auto simp: gpa_match_def Let_def split: list.splits if_splits)
  have "v = takeWhile ?D v @ ?r0"
    by simp
  also have "?r0 = takeWhile isWhiteSpace ?r0 @ dropWhile isWhiteSpace ?r0"
    by simp
  also have "dropWhile isWhiteSpace ?r0 = [47] @ takeWhile isWhiteSpace r @ dropWhile isWhiteSpace r"
    by (simp add: r)
  finally have "v = earned @ takeWhile isWhiteSpace ?r0 @ [47] @ takeWhile isWhiteSpace r @ total'"
    by (simp only: e t)
  moreover have "dropWhile isWhiteSpace (takeWhile isWhiteSpace ?r0) = []"
    "dropWhile isWhiteSpace (takeWhile isWhiteSpace r) = []"
    by (auto simp: dropWhile_eq_Nil_conv dest: set_takeWhileD)
  ultimately show ?thesis
    using sh unfolding gpa_form_def by blast
qed

lemma gpa_match_iff: "gpa_match v = Some (earned, total') \<longleftrightarrow> gpa_form v earned total'"
  using gpa_form_match gpa_match_form by blast

lemma validateField_gpa:
  "map_of (validationErrors (fst (validateField i Gpa v st))) (error_key i Gpa) = None \<longleftrightarrow>
     v = [] \<or>
     (case gpa_match v of None \<Rightarrow> False
      | Some (earned, total') \<Rightarrow> \<not> number_gt (parseFloat earned) (parseFloat total'))"
  by (simp add: validateField_def Let_def map_of_update_same map_of_delete_same
      split: option.split prod.split)

lemma decimal_value_examples:
  "decimal_value (str ''9007199254740993'') = 9007199254740993"
  "decimal_value (str ''9007199254740992'') = 9007199254740992"
  "decimal_value (str ''3.8'') = 19 / 5"
  "decimal_value (str ''4.2'') = 21 / 5"
  "decimal_value (str ''4.0'') = 4"
  by (simp_all add: decimal_value_def str_def isDigit_def digits_value_def)

lemma parseFloat_examples:
  "parseFloat (str ''9007199254740993'') = Finite 9007199254740992"
  "parseFloat (str ''9007199254740992'') = Finite 9007199254740992"
  "parseFloat (str ''4.2'') = Finite (4728779608739021 / 1125899906842624)"
  "parseFloat (str ''4.0'') = Finite 4"
proof -
  have "number_value 9007199254740993 = Finite 9007199254740992"
    by (subst number_value_above_2_52 [where u = 1])
      (simp_all add: round_half_even_def Let_def floor_rat_numeral)
  then show "parseFloat (str ''9007199254740993'') = Finite 9007199254740992"
    by (simp add: parseFloat_def decimal_value_examples)
  have "number_value 9007199254740992 = Finite 9007199254740992"
    by (subst number_value_above_2_52 [where u = 1])
      (simp_all add: round_half_even_def Let_def floor_rat_numeral)
  then show "parseFloat (str ''9007199254740992'') = Finite 9007199254740992"
    by (simp add: parseFloat_def decimal_value_examples)
  have "number_value (21 / 5) = Finite (4728779608739021 / 1125899906842624)"
    by (subst number_value_below_2_63 [where t = 50])
      (simp_all add: round_half_even_def Let_def floor_rat_numeral)
  then show "parseFloat (str ''4.2'') = Finite (4728779608739021 / 1125899906842624)"
    by (simp add: parseFloat_def decimal_value_examples)
  have "number_value 4 = Finite 4"
    by (subst number_value_below_2_63 [where t = 50])
      (simp_all add: round_half_even_def Let_def floor_rat_numeral)
  then show "parseFloat (str ''4.0'') = Finite 4"
    by (simp add: parseFloat_def decimal_value_examples)
qed

lemma gpa_match_examples:
  "gpa_match (str ''9007199254740993/9007199254740992'') =
     Some (str ''9007199254740993'', str ''9007199254740992'')"
  "gpa_match (str ''3.8/4.0'') = Some (str ''3.8'', str ''4.0'')"
  "gpa_match (str ''4.2/4.0'') = Some (str ''4.2'', str ''4.0'')"
  "gpa_match (str ''3.8'') = None"
  "gpa_match (str ''x/y'') = None"
  by (simp_all add: gpa_match_def str_def isDigit_def isWhiteSpace_def decimal_shape_def)

text \<open>
  C8 (as the code has it). GPA validation records no error exactly for the empty value
  and for a string of the form number, optional white space, slash, optional white
  space, number (a number being digits, optionally followed by a point and digits) whose
  two numbers, read by \<open>parseFloat\<close>, do not satisfy earned \<open>></\<close> total as Numbers. So
  every string of that form with earned \<open>\<le>\<close> total passes, every one whose earned Number
  exceeds its total Number fails, and so does every string of another shape.
\<close>

theorem gpa_validation:
  "(map_of (validationErrors (fst (validateField i Gpa v st))) (error_key i Gpa) = None \<longleftrightarrow>
      v = [] \<or>
      (\<exists>earned total'. gpa_form v earned total' \<and>
         \<not> number_gt (parseFloat earned) (parseFloat total'))) \<and>
   (gpa_form v earned total' \<and> decimal_value earned \<le> decimal_value total' \<longrightarrow>
      map_of (validationErrors (fst (validateField i Gpa v st))) (error_key i Gpa) = None) \<and>
   (gpa_form v earned total' \<and> number_gt (parseFloat earned) (parseFloat total') \<longrightarrow>
      map_of (validationErrors (fst (validateField i Gpa v st))) (error_key i Gpa) \<noteq> None)"
proof -
  let ?pass = "map_of (validationErrors (fst (validateField i Gpa v st))) (error_key i Gpa) = None"
  have 1: "?pass \<longleftrightarrow> v = [] \<or>
      (\<exists>earned total'. gpa_form v earned total' \<and>
         \<not> number_gt (parseFloat earned) (parseFloat total'))"
  proof (cases "gpa_match v")
    case None
    then have "\<not> gpa_form v e t" for e t
      using gpa_form_match [of v e t] by auto
    with None show ?thesis
      by (simp add: validateField_gpa)
  next
    case (Some p)
    obtain e t where p: "p = (e, t)" by (cases p)
    with Some have "gpa_form v e' t' \<longleftrightarrow> e' = e \<and> t' = t" for e' t'
      using gpa_match_iff [of v e' t'] by auto
    with Some p show ?thesis
      by (simp add: validateField_gpa)
  qed
  have 2: ?pass if f: "gpa_form v earned total'" and le: "decimal_value earned \<le> decimal_value total'"
  proof -
    from le have "\<not> number_gt (parseFloat earned) (parseFloat total')"
      unfolding parseFloat_def by (intro number_value_mono decimal_value_nonneg)
    with f 1 show ?thesis by blast
  qed
  have 3: "\<not> ?pass" if f: "gpa_form v earned total'"
    and gt: "number_gt (parseFloat earned) (parseFloat total')"
  proof -
    from f have "gpa_match v = Some (earned, total')"
      by (rule gpa_form_match)
    moreover from f have "v \<noteq> []"
      using decimal_shape_hd [of earned] by (auto simp: gpa_form_def)
    ultimately show ?thesis
      using gt by (simp add: validateField_gpa)
  qed
  from 1 2 3 show ?thesis by blast
qed

text \<open>
  The values \<open>3.8/4.0\<close> and the empty value pass; \<open>4.2/4.0\<close>, \<open>3.8\<close> and \<open>x/y\<close> leave an
  entry in the error map of the fresh education section.
\<close>

theorem gpa_validation_witness:
  "gpa_form (str ''3.8/4.0'') (str ''3.8'') (str ''4.0'') \<and>
   decimal_value (str ''3.8'') \<le> decimal_value (str ''4.0'') \<and>
   map_of (validationErrors (fst (validateField (str ''edu1'') Gpa (str ''3.8/4.0'')
     initial_EducationForm))) (error_key (str ''edu1'') Gpa) = None \<and>
   map_of (validationErrors (fst (validateField (str ''edu1'') Gpa [] initial_EducationForm)))
     (error_key (str ''edu1'') Gpa) = None \<and>
   gpa_form (str ''4.2/4.0'') (str ''4.2'') (str ''4.0'') \<and>
   number_gt (parseFloat (str ''4.2'')) (parseFloat (str ''4.0'')) \<and>
   map_of (validationErrors (fst (validateField (str ''edu1'') Gpa (str ''4.2/4.0'')
     initial_EducationForm))) (error_key (str ''edu1'') Gpa) \<noteq> None \<and>
   map_of (validationErrors (fst (validateField (str ''edu1'') Gpa (str ''3.8'')
     initial_EducationForm))) (error_key (str ''edu1'') Gpa) \<noteq> None \<and>
   map_of (validationErrors (fst (validateField (str ''edu1'') Gpa (str ''x/y'')
     initial_EducationForm))) (error_key (str ''edu1'') Gpa) \<noteq> None"
proof -
  let ?err = "\<lambda>v. map_of (validationErrors (fst (validateField (str ''edu1'') Gpa v
     initial_EducationForm))) (error_key (str ''edu1'') Gpa)"
  have f1: "gpa_form (str ''3.8/4.0'') (str ''3.8'') (str ''4.0'')"
    and f2: "gpa_form (str ''4.2/4.0'') (str ''4.2'') (str ''4.0'')"
    by (simp_all only: gpa_match_iff [symmetric] gpa_match_examples)
  have le: "decimal_value (str ''3.8'') \<le> decimal_value (str ''4.0'')"
    by (simp add: decimal_value_examples)
  have gt: "number_gt (parseFloat (str ''4.2'')) (parseFloat (str ''4.0''))"
    by (simp add: parseFloat_examples)
  from f1 le gpa_validation [of "str ''edu1''" "str ''3.8/4.0''" initial_EducationForm
      "str ''3.8''" "str ''4.0''"]
  have p1: "?err (str ''3.8/4.0'') = None"
    by blast
  from f2 gt gpa_validation [of "str ''edu1''" "str ''4.2/4.0''" initial_EducationForm
      "str ''4.2''" "str ''4.0''"]
  have p2: "?err (str ''4.2/4.0'') \<noteq> None"
    by blast
  have p0: "?err [] = None"
    by (simp add: validateField_gpa)
  have n: "str ''3.8'' \<noteq> []" "str ''x/y'' \<noteq> []"
    by (simp_all add: str_def)
  then have p3: "?err (str ''3.8'') \<noteq> None" "?err (str ''x/y'') \<noteq> None"
    by (simp_all add: validateField_gpa gpa_match_examples)
  from f1 le p1 p0 f2 gt p2 p3 show ?thesis
    by (intro conjI)
qed

text \<open>
  C8 as the spec words it fails where two numbers round to the same Number: in
  \<open>9007199254740993/9007199254740992\<close> earned exceeds total, yet both are read as
  \<open>2^53\<close> and no error is recorded.
\<close>

theorem gpa_rounding_counterexample:
  "gpa_form (str ''9007199254740993/9007199254740992'') (str ''9007199254740993'')
     (str ''9007199254740992'') \<and>
   decimal_value (str ''9007199254740992'') < decimal_value (str ''9007199254740993'') \<and>
   parseFloat (str ''9007199254740993'') = parseFloat (str ''9007199254740992'') \<and>
   map_of (validationErrors (fst (validateField (str ''edu1'') Gpa
     (str ''9007199254740993/9007199254740992'') initial_EducationForm)))
     (error_key (str ''edu1'') Gpa) = None"
proof -
  have "gpa_form (str ''9007199254740993/9007199254740992'') (str ''9007199254740993'')
     (str ''9007199254740992'')"
    by (simp only: gpa_match_iff [symmetric] gpa_match_examples)
  moreover have "decimal_value (str ''9007199254740992'') < decimal_value (str ''9007199254740993'')"
    by (simp add: decimal_value_examples)
  moreover have "parseFloat (str ''9007199254740993'') = parseFloat (str ''9007199254740992'')"
    by (simp add: parseFloat_examples)
  moreover have "map_of (validationErrors (fst (validateField (str ''edu1'') Gpa
     (str ''9007199254740993/9007199254740992'') initial_EducationForm)))
     (error_key (str ''edu1'') Gpa) = None"
    by (simp add: validateField_gpa gpa_match_examples parseFloat_examples)
  ultimately show ?thesis
    by (intro conjI)
qed

subsection \<open>Section cursor\<close>

lemma section_ids_eq:
  "section_ids = [str ''personal'', str ''education'', str ''experience'']"
  by (simp add: section_ids_def SECTIONS_def)

lemma getCurrentSectionIndex_values:
  "getCurrentSectionIndex (str ''personal'') = 0"
  "getCurrentSectionIndex (str ''education'') = 1"
  "getCurrentSectionIndex (str ''experience'') = 2"
  by (simp_all add: getCurrentSectionIndex_def SECTIONS_def str_def)

lemma goToNextSection_values:
  "goToNextSection (str ''personal'') = str ''education''"
  "goToNextSection (str ''education'') = str ''experience''"
  "goToNextSection (str ''experience'') = str ''experience''"
  by (simp_all add: goToNextSection_def getCurrentSectionIndex_values)
    (simp_all add: SECTIONS_def)

lemma goToPrevSection_values:
  "goToPrevSection (str ''personal'') = str ''personal''"
  "goToPrevSection (str ''education'') = str ''personal''"
  "goToPrevSection (str ''experience'') = str ''education''"
  by (simp_all add: goToPrevSection_def getCurrentSectionIndex_values)
    (simp_all add: SECTIONS_def)

lemma nav_step_section:
  assumes "cur \<in> set section_ids" "from_tab_strip e"
  shows "nav_step cur e \<in> set section_ids"
proof (cases e)
  case Next
  with assms(1) show ?thesis
    by (auto simp: section_ids_eq goToNextSection_values)
next
  case Previous
  with assms(1) show ?thesis
    by (auto simp: section_ids_eq goToPrevSection_values)
next
  case (Jump sectionId)
  with assms(2) show ?thesis by simp
qed

lemma foldl_nav_step_section:
  "cur \<in> set section_ids \<Longrightarrow> \<forall>e\<in>set es. from_tab_strip e \<Longrightarrow>
     foldl nav_step cur es \<in> set section_ids"
  by (induction es arbitrary: cur) (simp_all add: nav_step_section)

text \<open>
  C9. The cursor starts at \<open>personal\<close>, the first of the sections personal, education,
  experience. \<open>next\<close> advances by one section and stays at the last; \<open>previous\<close> goes
  back by one and stays at the first; a jump sets the cursor to the section of the tab.
  After any sequence of these events the cursor is one of the three identifiers.
\<close>

theorem section_cursor:
  "initialSection = str ''personal'' \<and> initialSection = sec_id (hd SECTIONS) \<and>
   section_ids = [str ''personal'', str ''education'', str ''experience''] \<and>
   goToNextSection (str ''personal'') = str ''education'' \<and>
   goToNextSection (str ''education'') = str ''experience'' \<and>
   goToNextSection (str ''experience'') = str ''experience'' \<and>
   goToPrevSection (str ''experience'') = str ''education'' \<and>
   goToPrevSection (str ''education'') = str ''personal'' \<and>
   goToPrevSection (str ''personal'') = str ''personal'' \<and>
   nav_step cur (Jump sectionId) = sectionId \<and>
   ((\<forall>e\<in>set es. from_tab_strip e) \<longrightarrow> foldl nav_step initialSection es \<in> set section_ids)"
proof -
  have "initialSection \<in> set section_ids"
    by (simp add: initialSection_def section_ids_eq)
  then have inv: "(\<forall>e\<in>set es. from_tab_strip e) \<longrightarrow> foldl nav_step initialSection es \<in> set section_ids"
    by (simp add: foldl_nav_step_section)
  have first: "initialSection = sec_id (hd SECTIONS)"
    by (simp add: initialSection_def SECTIONS_def)
  show ?thesis
    by (intro conjI)
      (rule inv first initialSection_def section_ids_eq goToNextSection_values
        goToPrevSection_values nav_step.simps)+
qed

text \<open>A run of the cursor: next, next, next, jump to personal, previous, jump to education.\<close>

theorem section_cursor_witness:
  "from_tab_strip Next \<and> from_tab_strip Previous \<and>
   from_tab_strip (Jump (str ''personal'')) \<and> from_tab_strip (Jump (str ''education'')) \<and>
   foldl nav_step initialSection
     [Next, Next, Next, Jump (str ''personal''), Previous, Jump (str ''education'')] =
     str ''education'' \<and>
   str ''education'' \<in> set section_ids"
proof -
  let ?es = "[Next, Next, Next, Jump (str ''personal''), Previous, Jump (str ''education'')]"
  have h: "\<forall>e\<in>set ?es. from_tab_strip e"
    by (simp add: section_ids_eq)
  have r: "foldl nav_step initialSection ?es = str ''education''"
    by (simp add: initialSection_def goToNextSection_values goToPrevSection_values)
  from h section_cursor [of _ _ ?es] have "foldl nav_step initialSection ?es \<in> set section_ids"
    by blast
  with h r show ?thesis by simp
qed

subsection \<open>Repository tags\<close>

lemma set_first_wins: "set (first_wins key cs) \<subseteq> set cs"
  by (induction key cs rule: first_wins.induct) auto

lemma subseq_first_wins: "subseq (first_wins key cs) cs"
proof (induction key cs rule: first_wins.induct)
  case (1 key)
  show ?case by simp
next
  case (2 key c cs)
  show ?case
  proof (cases "fst c = []")
    case True
    with 2 show ?thesis by (simp add: list_emb_Cons)
  next
    case False
    with 2 have "subseq (first_wins key (filter (\<lambda>d. key (fst d) \<noteq> key (fst c)) cs))
        (filter (\<lambda>d. key (fst d) \<noteq> key (fst c)) cs)"
      by simp
    also have "subseq (filter (\<lambda>d. key (fst d) \<noteq> key (fst c)) cs) cs"
      by simp
    finally show ?thesis using False by simp
  qed
qed

lemma distinct_first_wins: "distinct (map (\<lambda>t. key (fst t)) (first_wins key cs))"
proof (induction key cs rule: first_wins.induct)
  case (1 key)
  show ?case by simp
next
  case (2 key c cs)
  show ?case
  proof (cases "fst c = []")
    case True
    with 2 show ?thesis by simp
  next
    case False
    let ?rest = "filter (\<lambda>d. key (fst d) \<noteq> key (fst c)) cs"
    have "set (first_wins key ?rest) \<subseteq> set ?rest"
      by (rule set_first_wins)
    then have notin: "key (fst c) \<notin> (\<lambda>t. key (fst t)) ` set (first_wins key ?rest)"
      by fastforce
    from 2 False have "distinct (map (\<lambda>t. key (fst t)) (first_wins key ?rest))"
      by simp
    with notin False show ?thesis
      by simp
  qed
qed

lemma nonempty_first_wins: "[] \<notin> set (map fst (first_wins key cs))"
  by (induction key cs rule: first_wins.induct) auto

lemma fold_addTag:
  "fst (fold (\<lambda>c. addTag toLowerCase (fst c) (snd c)) cs (tags, seen)) =
     tags @ first_wins (\<lambda>n. trim (toLowerCase n))
       (filter (\<lambda>c. trim (toLowerCase (fst c)) \<notin> seen) cs)"
proof (induction cs arbitrary: tags seen)
  case Nil
  show ?case by simp
next
  case (Cons c cs)
  let ?k = "trim (toLowerCase (fst c))"
  show ?case
  proof (cases "?k \<notin> seen \<and> fst c \<noteq> []")
    case True
    have "filter (\<lambda>d. trim (toLowerCase (fst d)) \<noteq> ?k)
            (filter (\<lambda>d. trim (toLowerCase (fst d)) \<notin> seen) cs) =
          filter (\<lambda>d. trim (toLowerCase (fst d)) \<notin> insert ?k seen) cs"
      by (simp add: conj_commute)
    with True Cons.IH [of "tags @ [c]" "insert ?k seen"] show ?thesis
      by (simp add: addTag_def)
  next
    case False
    with Cons.IH [of tags seen] show ?thesis
      by (auto simp: addTag_def)
  qed
qed

lemma forEach_opt_addTag:
  "forEach_opt xs (\<lambda>n. addTag toLowerCase n ty) st =
     fold (\<lambda>c. addTag toLowerCase (fst c) (snd c))
       (map (\<lambda>n. (n, ty)) (case xs of None \<Rightarrow> [] | Some l \<Rightarrow> l)) st"
  by (cases xs) (simp_all add: forEach_opt_def fold_map comp_def)

lemma getRepositoryTags_first_wins:
  "getRepositoryTags toLowerCase repo = first_wins (\<lambda>n. trim (toLowerCase n)) (candidates repo)"
proof -
  have "getRepositoryTags toLowerCase repo =
      fst (fold (\<lambda>c. addTag toLowerCase (fst c) (snd c)) (candidates repo) ([], {}))"
    by (simp add: getRepositoryTags_def candidates_def forEach_opt_addTag)
  then show ?thesis
    by (simp add: fold_addTag)
qed

text \<open>
  C10. \<open>getRepositoryTags\<close> returns the candidates (topics, then languages, then
  generated tags, each with the type of its origin) in which the first candidate of each
  name, compared after lower-casing and trimming, wins and empty names are left out: the
  result is a subsequence of the candidates, no two of its entries have the same
  normalised name, and none has an empty name.
\<close>

theorem getRepositoryTags_unique:
  "getRepositoryTags toLowerCase repo =
     first_wins (\<lambda>n. trim (toLowerCase n)) (candidates repo) \<and>
   subseq (getRepositoryTags toLowerCase repo) (candidates repo) \<and>
   distinct (map (\<lambda>t. trim (toLowerCase (fst t))) (getRepositoryTags toLowerCase repo)) \<and>
   [] \<notin> set (map fst (getRepositoryTags toLowerCase repo))"
  unfolding getRepositoryTags_first_wins
  by (intro conjI refl subseq_first_wins distinct_first_wins nonempty_first_wins)

text \<open>
  The sample repository under ASCII lower-casing: \<open>React\<close> wins over its two later
  spellings, the single space is kept (it is not empty, and the first whose normalised
  name is empty), the empty name and the later blank name are dropped.
\<close>

theorem getRepositoryTags_unique_witness:
  "getRepositoryTags (map lower_ascii) sample_repo =
     [(str ''React'', Topic), (str '' '', Topic), (str ''Vue'', Generated)] \<and>
   distinct (map (\<lambda>t. trim (map lower_ascii (fst t))) (getRepositoryTags (map lower_ascii) sample_repo))"
proof -
  have e: "first_wins (\<lambda>n. trim (map lower_ascii n)) (candidates sample_repo) =
      [(str ''React'', Topic), (str '' '', Topic), (str ''Vue'', Generated)]"
    by (simp add: candidates_def sample_repo_def str_def trim_def lower_ascii_def isWhiteSpace_def)
  from getRepositoryTags_unique [of "map lower_ascii" sample_repo]
  have g: "getRepositoryTags (map lower_ascii) sample_repo =
      first_wins (\<lambda>n. trim (map lower_ascii n)) (candidates sample_repo)"
    and d: "distinct (map (\<lambda>t. trim (map lower_ascii (fst t)))
      (getRepositoryTags (map lower_ascii) sample_repo))"
    by blast+
  from g e have "getRepositoryTags (map lower_ascii) sample_repo =
      [(str ''React'', Topic), (str '' '', Topic), (str ''Vue'', Generated)]"
    by (rule trans)
  with d show ?thesis by (intro conjI)
qed

end
